theory Spec2Isabelle
  imports Complex_Main "HOL-Library.Sublist" "HOL-Library.Multiset" "HOL-Library.Word"
    "HOL-Library.Log_Nat" "HOL-Library.Product_Lexorder"
begin

section \<open>Data model\<close>

text \<open>
  The backend of the repository: \<^verbatim>\<open>redisClient.js\<close> (the vector index),
  \<^verbatim>\<open>sanityClient.js\<close> (the document store), \<^verbatim>\<open>lightningClient.js\<close> (embedding and
  generation), \<^verbatim>\<open>ingest.js\<close>, \<^verbatim>\<open>query.js\<close> and the ingest handler of
  \<^verbatim>\<open>server.js\<close>.

  Conventions of the embedding.
  \<^item> A JavaScript number is an IEEE 754 binary64 value, modelled in the next section with
    its rounding, its overflow to infinity, its underflow and NaN. \<^verbatim>\<open>Math.sin\<close> and
    \<^verbatim>\<open>Math.cos\<close>, which ECMAScript leaves to the implementation, are parameters.
  \<^item> A JavaScript string is a \<^typ>\<open>string\<close>; one \<^typ>\<open>char\<close> stands for one UTF-16 code
    unit (below 256), so \<open>length\<close> is \<^verbatim>\<open>.length\<close> and \<open>take n\<close> is \<^verbatim>\<open>.substring(0, n)\<close>.
  \<^item> A thrown \<^verbatim>\<open>Error(message)\<close> is the value \<open>Inl (Error message)\<close> of a sum type.
  \<^item> The three services the code talks to are state: the Sanity dataset and the Redis
    keyspace are maps in a \<open>world\<close> record, which also logs every call of a collaborator
    function in order. What the services decide on their own (a failing request, the id a
    created document gets, the order in which Redis lists its keys, the clock) is read from
    an \<open>env\<close> record of parameters.
\<close>

section \<open>JavaScript numbers\<close>

text \<open>
  A JavaScript number is an IEEE 754 binary64 value. Every finite binary64 value is an
  integer multiple of \<open>2^-1074\<close>, the smallest subnormal, so a finite number is modelled by that
  integer: \<open>Fin n\<close> is the number \<open>n \<times> 2^-1074\<close>. The two infinities and NaN are values of
  their own. The two zeros are one value, \<open>Fin 0\<close>: the code modelled here compares
  numbers, adds, multiplies, takes square roots and divides, and none of these tells \<open>-0\<close>
  from \<open>+0\<close> unless the divisor is a zero; a divisor of the code is a square root or a
  product of square roots, whose zero is \<open>+0\<close>.
\<close>

datatype num = Fin int | PInf | NInf | NaN

text \<open>The integer \<open>i\<close> as a number (exact for \<open>|i| \<le> 2^53\<close>).\<close>

definition num_of_int :: "int \<Rightarrow> num" where
  "num_of_int i = Fin (i * 2 ^ 1074)"

text \<open>
  Rounding to nearest, ties to even. \<open>round_ratio a b\<close> is the binary64 value of the exact
  quotient \<open>a / b\<close> (for \<open>b > 0\<close>), counted in units of \<open>2^-1074\<close>. With \<open>k\<close> the number of
  bits of the integer part, the result keeps 53 bits: it is a multiple of \<open>2^s\<close> for
  \<open>s = k - 53\<close>, or an integer when \<open>k \<le> 53\<close> (the subnormal numbers and the first
  binade). A result of \<open>2^1024\<close> or more, that is \<open>2^2098\<close> units, is an infinity.
\<close>

definition round_ratio :: "int \<Rightarrow> int \<Rightarrow> num" where
  "round_ratio a b =
     (let m = \<bar>a\<bar>;
          s = nat (bitlen (m div b) - 53);
          d = b * 2 ^ s;
          q = m div d;
          r = m mod d;
          q' = (if d < 2 * r \<or> (2 * r = d \<and> odd q) then q + 1 else q);
          n = q' * 2 ^ s
      in if 2 ^ 2098 \<le> n then (if a < 0 then NInf else PInf)
         else Fin (if a < 0 then - n else n))"

text \<open>The integer square root, by the digit recursion on base 4.\<close>

function isqrt :: "int \<Rightarrow> int" where
  "isqrt n =
     (if n < 2 then n
      else (let r = 2 * isqrt (n div 4) in if (r + 1) * (r + 1) \<le> n then r + 1 else r))"
  by pat_completeness auto
termination
  by (relation "measure nat") auto

declare isqrt.simps [simp del]

text \<open>\<open>round_sqrt N\<close> is the binary64 value of the square root of \<open>N\<close>, in the same units:
  the root is cut to 53 bits and rounded by comparing \<open>N\<close> with the square of the
  midpoint.\<close>

definition round_sqrt :: "int \<Rightarrow> num" where
  "round_sqrt N =
     (let r0 = isqrt N;
          s = nat (bitlen r0 - 53);
          q = r0 div 2 ^ s;
          q' = (if (2 * q + 1) ^ 2 * 4 ^ s < 4 * N \<or> ((2 * q + 1) ^ 2 * 4 ^ s = 4 * N \<and> odd q)
                then q + 1 else q)
      in Fin (q' * 2 ^ s))"

fun sign_of :: "num \<Rightarrow> int" where
  "sign_of (Fin a) = sgn a"
| "sign_of PInf = 1"
| "sign_of NInf = - 1"
| "sign_of NaN = 0"

fun fneg :: "num \<Rightarrow> num" where
  "fneg (Fin a) = Fin (- a)"
| "fneg PInf = NInf"
| "fneg NInf = PInf"
| "fneg NaN = NaN"

text \<open>\<^verbatim>\<open>x + y\<close>.\<close>

fun fadd :: "num \<Rightarrow> num \<Rightarrow> num" where
  "fadd NaN y = NaN"
| "fadd x NaN = NaN"
| "fadd PInf NInf = NaN"
| "fadd NInf PInf = NaN"
| "fadd PInf y = PInf"
| "fadd NInf y = NInf"
| "fadd x PInf = PInf"
| "fadd x NInf = NInf"
| "fadd (Fin a) (Fin b) = round_ratio (a + b) 1"

text \<open>\<^verbatim>\<open>x - y\<close>.\<close>

definition fsub :: "num \<Rightarrow> num \<Rightarrow> num" where
  "fsub x y = fadd x (fneg y)"

text \<open>\<^verbatim>\<open>x * y\<close>: the product of two finite numbers has \<open>2^-2148\<close> as its unit; zero times
  infinity is NaN.\<close>

fun fmul :: "num \<Rightarrow> num \<Rightarrow> num" where
  "fmul NaN y = NaN"
| "fmul x NaN = NaN"
| "fmul (Fin a) (Fin b) = round_ratio (a * b) (2 ^ 1074)"
| "fmul x y =
     (if sign_of x * sign_of y = 0 then NaN
      else if 0 < sign_of x * sign_of y then PInf else NInf)"

text \<open>\<^verbatim>\<open>x / y\<close>: a zero divisor gives NaN for \<open>0 / 0\<close> and an infinity otherwise (the divisor
  counted as \<open>+0\<close>).\<close>

fun fdiv :: "num \<Rightarrow> num \<Rightarrow> num" where
  "fdiv NaN y = NaN"
| "fdiv x NaN = NaN"
| "fdiv (Fin a) (Fin b) =
     (if b = 0 then (if a = 0 then NaN else if 0 < a then PInf else NInf)
      else round_ratio (a * 2 ^ 1074 * sgn b) \<bar>b\<bar>)"
| "fdiv (Fin a) y = Fin 0"
| "fdiv x (Fin b) = (if (sign_of x < 0) = (b < 0) then PInf else NInf)"
| "fdiv x y = NaN"

text \<open>\<^verbatim>\<open>Math.sqrt(x)\<close>.\<close>

fun fsqrt :: "num \<Rightarrow> num" where
  "fsqrt (Fin a) = (if a < 0 then NaN else round_sqrt (a * 2 ^ 1074))"
| "fsqrt PInf = PInf"
| "fsqrt NInf = NaN"
| "fsqrt NaN = NaN"

text \<open>\<^verbatim>\<open>v > 0\<close>, as \<^verbatim>\<open>Array.prototype.sort\<close> reads the value of its comparator (NaN counts
  as \<open>0\<close>).\<close>

fun is_pos :: "num \<Rightarrow> bool" where
  "is_pos (Fin a) = (0 < a)"
| "is_pos PInf = True"
| "is_pos NInf = False"
| "is_pos NaN = False"

text \<open>The literals \<^verbatim>\<open>0.5\<close> and \<^verbatim>\<open>0.7\<close>: \<open>2^-1\<close>, and the binary64 value nearest to
  \<open>7/10\<close>, which is \<open>6305039478318694 \<times> 2^-53\<close>.\<close>

definition num_half :: num where
  "num_half = Fin (2 ^ 1073)"

definition num_seven_tenths :: num where
  "num_seven_tenths = Fin (6305039478318694 * 2 ^ 1021)"

section \<open>Errors, records and services\<close>

datatype error = Error string

fun message :: "error \<Rightarrow> string" where
  "message (Error m) = m"

text \<open>The value \<^verbatim>\<open>upsertVector\<close> stores under a key: \<^verbatim>\<open>{vector, metadata, timestamp}\<close>
  (written with \<^verbatim>\<open>JSON.stringify\<close>, read back with \<^verbatim>\<open>JSON.parse\<close>).\<close>

record stored =
  vector :: "num list"
  metadata :: "string \<rightharpoonup> string"
  timestamp :: nat

text \<open>An entry of the list \<^verbatim>\<open>queryTopK\<close> returns: \<^verbatim>\<open>{id, score, metadata}\<close>.\<close>

record hit =
  hit_id :: string
  score :: num
  hit_metadata :: "string \<rightharpoonup> string"

text \<open>The value \<^verbatim>\<open>upsertVector\<close> returns: \<^verbatim>\<open>{id, key}\<close>.\<close>

record upsert_result =
  res_id :: string
  res_key :: string

text \<open>A document of the Sanity dataset. A field that is absent is the empty string, which
  \<^verbatim>\<open>||\<close> treats like \<^verbatim>\<open>undefined\<close>.\<close>

record sanity_doc =
  doc_id :: string
  doc_type :: string
  title :: string
  contentSnippet :: string
  fullText :: string
  doc_source :: string
  createdAt :: nat

text \<open>The calls of collaborator functions, as the pipelines make them.\<close>

datatype call =
    SaveDocument string
  | GetDocument string
  | CreateEmbedding string
  | GenerateAnswer string
  | UpsertVector string
  | QueryTopK

record world =
  sanity :: "string \<rightharpoonup> sanity_doc"
  redis :: "string \<rightharpoonup> stored"
  calls :: "call list"

record env =
  LIGHTNING_API_KEY :: bool
  fetch_embeddings :: "string \<Rightarrow> string + num list"
  fetch_completions :: "string \<Rightarrow> string + string"
  mock_answer :: "string \<Rightarrow> string"
  client_create :: "sanity_doc \<Rightarrow> string + string"
  client_getDocument_fault :: "string \<Rightarrow> string option"
  redis_fault :: "string option"
  client_keys :: "(string \<rightharpoonup> stored) \<Rightarrow> string list"
  date_now :: nat
  toFixed3 :: "num \<Rightarrow> string"
  math_sin :: "num \<Rightarrow> num"
  math_cos :: "num \<Rightarrow> num"
  pdfParse :: "string \<Rightarrow> string + string"

text \<open>
  The fields of \<open>env\<close>:
  \<^item> \<open>LIGHTNING_API_KEY\<close>: whether the key is configured;
  \<^item> \<open>fetch_embeddings text\<close>, \<open>fetch_completions prompt\<close>: the outcome of the request to
    the provider, \<open>Inl msg\<close> when the request fails or the response is not ok;
  \<^item> \<open>mock_answer\<close>: the text \<^verbatim>\<open>generateMockAnswer\<close> builds from a prompt;
  \<^item> \<open>client_create document\<close>: the outcome of Sanity's \<^verbatim>\<open>client.create\<close>, the new
    \<^verbatim>\<open>_id\<close> or the message of the rejection;
  \<^item> \<open>client_getDocument_fault id\<close>: the message with which \<^verbatim>\<open>client.getDocument\<close>
    rejects for this id, if it does;
  \<^item> \<open>redis_fault\<close>: the message with which connecting to Redis rejects, if it does;
  \<^item> \<open>client_keys db\<close>: the reply of \<^verbatim>\<open>KEYS doc:*\<close> on the keyspace \<open>db\<close>; Redis
    promises no order, so the order is a parameter;
  \<^item> \<open>date_now\<close>: \<^verbatim>\<open>Date.now()\<close>;
  \<^item> \<open>toFixed3\<close>: \<^verbatim>\<open>Number.prototype.toFixed(3)\<close>;
  \<^item> \<open>math_sin\<close>, \<open>math_cos\<close>: \<^verbatim>\<open>Math.sin\<close> and \<^verbatim>\<open>Math.cos\<close>, whose values ECMAScript
    leaves to the implementation;
  \<^item> \<open>pdfParse buffer\<close>: the text the pdf-parse library extracts, or its failure.
\<close>

text \<open>A reply of \<^verbatim>\<open>KEYS doc:*\<close> is well formed when it lists each key of the keyspace
  that starts with \<^verbatim>\<open>doc:\<close> exactly once.\<close>

definition keys_reply_ok :: "string list \<Rightarrow> (string \<rightharpoonup> stored) \<Rightarrow> bool" where
  "keys_reply_ok ks db \<longleftrightarrow>
     distinct ks \<and> set ks = {key. key \<in> dom db \<and> prefix ''doc:'' key}"

section \<open>redisClient.js\<close>

subsection \<open>cosineSimilarity\<close>

text \<open>The loop of \<^verbatim>\<open>cosineSimilarity\<close>: the accumulators are
  \<^verbatim>\<open>(dotProduct, magA, magB)\<close>, the index walks both vectors at once. Every product and
  every sum is rounded.\<close>

fun cosine_loop :: "num list \<Rightarrow> num list \<Rightarrow> num \<times> num \<times> num \<Rightarrow> num \<times> num \<times> num" where
  "cosine_loop (a # as) (b # bs) (dotProduct, magA, magB) =
     cosine_loop as bs
       (fadd dotProduct (fmul a b), fadd magA (fmul a a), fadd magB (fmul b b))"
| "cosine_loop _ _ acc = acc"

text \<open>\<^verbatim>\<open>magnitude === 0 ? 0 : dotProduct / magnitude\<close> with
  \<^verbatim>\<open>magnitude = Math.sqrt(magA) * Math.sqrt(magB)\<close>. A NaN is not equal to \<open>0\<close>.\<close>

definition cosineSimilarity :: "num list \<Rightarrow> num list \<Rightarrow> error + num" where
  "cosineSimilarity vecA vecB =
     (if length vecA \<noteq> length vecB then Inl (Error ''Vectors must have same length'')
      else (case cosine_loop vecA vecB (Fin 0, Fin 0, Fin 0) of
              (dotProduct, magA, magB) \<Rightarrow>
                (let magnitude = fmul (fsqrt magA) (fsqrt magB)
                 in Inr (if magnitude = Fin 0 then Fin 0 else fdiv dotProduct magnitude))))"

subsection \<open>upsertVector\<close>

text \<open>The record is written with \<^verbatim>\<open>JSON.stringify\<close>, which writes NaN and the infinities
  as \<^verbatim>\<open>null\<close>; the arithmetic of \<^verbatim>\<open>cosineSimilarity\<close>, the only reader of a stored
  vector, takes \<^verbatim>\<open>null\<close> for the number \<open>0\<close>. A finite number is read back as it was
  written.\<close>

fun json_number :: "num \<Rightarrow> num" where
  "json_number (Fin a) = Fin a"
| "json_number x = Fin 0"

text \<open>\<^verbatim>\<open>upsertVector(id, vector, metadata)\<close>: one \<^verbatim>\<open>SET\<close> of the key \<^verbatim>\<open>doc:ID\<close>. A
  failure of the connection is caught and thrown again with a prefix. There is no other
  check. (The parameter \<^verbatim>\<open>metadata\<close> defaults to \<^verbatim>\<open>{}\<close>, the map \<open>Map.empty\<close>, when a
  caller leaves it out.)\<close>

definition upsertVector ::
  "env \<Rightarrow> string \<Rightarrow> num list \<Rightarrow> (string \<rightharpoonup> string) \<Rightarrow> world \<Rightarrow> (error + upsert_result) \<times> world" where
  "upsertVector E ident vec meta w =
     (let w' = w\<lparr>calls := calls w @ [UpsertVector ident]\<rparr>
      in case redis_fault E of
           Some msg \<Rightarrow> (Inl (Error (''Failed to store vector: '' @ msg)), w')
         | None \<Rightarrow>
             (let key = ''doc:'' @ ident;
                  val = \<lparr>vector = map json_number vec, metadata = meta, timestamp = date_now E\<rparr>
              in (Inr \<lparr>res_id = ident, res_key = key\<rparr>,
                  w'\<lparr>redis := (redis w')(key \<mapsto> val)\<rparr>)))"

subsection \<open>queryTopK\<close>

text \<open>\<^verbatim>\<open>String.prototype.replace(pattern, replacement)\<close> with a string pattern: the first
  occurrence is replaced.\<close>

fun js_replace :: "string \<Rightarrow> string \<Rightarrow> string \<Rightarrow> string" where
  "js_replace pat rep [] = (if pat = [] then rep else [])"
| "js_replace pat rep (c # cs) =
     (if prefix pat (c # cs) then rep @ drop (length pat) (c # cs)
      else c # js_replace pat rep cs)"

text \<open>\<^verbatim>\<open>Array.prototype.sort(cmp)\<close>: a stable sort (ECMAScript 2019). The element \<open>x\<close>
  stood before every element of the list it is inserted into, so it moves behind \<open>y\<close>
  only when \<open>cmp x y > 0\<close>; a comparator value of NaN counts as \<open>0\<close>. (When the comparator
  is not consistent, as with a NaN among the scores, ECMAScript leaves the order to the
  implementation; this definition is then one of the permitted orders.)\<close>

fun insert_by :: "('a \<Rightarrow> 'a \<Rightarrow> num) \<Rightarrow> 'a \<Rightarrow> 'a list \<Rightarrow> 'a list" where
  "insert_by cmp x [] = [x]"
| "insert_by cmp x (y # ys) =
     (if is_pos (cmp x y) then y # insert_by cmp x ys else x # y # ys)"

definition js_sort :: "('a \<Rightarrow> 'a \<Rightarrow> num) \<Rightarrow> 'a list \<Rightarrow> 'a list" where
  "js_sort cmp xs = foldr (insert_by cmp) xs []"

text \<open>\<^verbatim>\<open>Array.prototype.slice(0, k)\<close>: a negative end counts from the end of the array.\<close>

definition js_slice0 :: "'a list \<Rightarrow> int \<Rightarrow> 'a list" where
  "js_slice0 xs k = (if k < 0 then take (nat (int (length xs) + k)) xs else take (nat k) xs)"

text \<open>The loop over the keys: a key without a value is skipped, a vector of another
  length than the query makes \<^verbatim>\<open>cosineSimilarity\<close> throw, which ends the loop. The id of
  a hit is \<^verbatim>\<open>key.replace('doc:', '')\<close>.\<close>

fun similarities_loop ::
  "(string \<rightharpoonup> stored) \<Rightarrow> num list \<Rightarrow> string list \<Rightarrow> hit list \<Rightarrow> error + hit list" where
  "similarities_loop db queryVector [] similarities = Inr similarities"
| "similarities_loop db queryVector (key # keys) similarities =
     (case db key of
        None \<Rightarrow> similarities_loop db queryVector keys similarities
      | Some parsed \<Rightarrow>
          (case cosineSimilarity queryVector (vector parsed) of
             Inl e \<Rightarrow> Inl e
           | Inr similarity \<Rightarrow>
               similarities_loop db queryVector keys
                 (similarities @
                    [\<lparr>hit_id = js_replace ''doc:'' '''' key, score = similarity,
                      hit_metadata = metadata parsed\<rparr>])))"

text \<open>\<^verbatim>\<open>queryTopK(queryVector, k = 3)\<close>: the keys are listed, every stored vector is
  scored, the hits are sorted by \<^verbatim>\<open>(a, b) => b.score - a.score\<close> and cut to
  \<^verbatim>\<open>slice(0, k)\<close>. Any error is caught and thrown again with a prefix.\<close>

definition queryTopK :: "env \<Rightarrow> num list \<Rightarrow> int \<Rightarrow> world \<Rightarrow> (error + hit list) \<times> world" where
  "queryTopK E queryVector k w =
     (let w' = w\<lparr>calls := calls w @ [QueryTopK]\<rparr>
      in case redis_fault E of
           Some msg \<Rightarrow> (Inl (Error (''Failed to query vectors: '' @ msg)), w')
         | None \<Rightarrow>
             (let keys = client_keys E (redis w')
              in if length keys = 0 then (Inr [], w')
                 else (case similarities_loop (redis w') queryVector keys [] of
                         Inl e \<Rightarrow> (Inl (Error (''Failed to query vectors: '' @ message e)), w')
                       | Inr similarities \<Rightarrow>
                           (Inr (js_slice0 (js_sort (\<lambda>a b. fsub (score b) (score a)) similarities) k),
                            w'))))"

section \<open>lightningClient.js\<close>

text \<open>The hash of \<^verbatim>\<open>generateMockEmbedding\<close>:
  \<^verbatim>\<open>hash = ((hash << 5) - hash) + text.charCodeAt(i); hash = hash & hash\<close>. The value is
  brought back to a 32-bit integer in every round and the arithmetic in between is exact,
  so the loop is arithmetic of 32-bit words; the number read at the end is the signed value.\<close>

fun hash_loop :: "32 word \<Rightarrow> string \<Rightarrow> 32 word" where
  "hash_loop hash [] = hash"
| "hash_loop hash (c # cs) = hash_loop ((push_bit 5 hash - hash) + of_nat (of_char c)) cs"

text \<open>\<^verbatim>\<open>vector[i] = Math.sin(seed) * 0.5 + Math.cos(seed * 0.7) * 0.5\<close> with
  \<^verbatim>\<open>seed = hash + i\<close>, an integer below \<open>2^53\<close> and so exact.\<close>

definition mock_component :: "env \<Rightarrow> int \<Rightarrow> nat \<Rightarrow> num" where
  "mock_component E hash i =
     (let seed = num_of_int (hash + int i)
      in fadd (fmul (math_sin E seed) num_half)
              (fmul (math_cos E (fmul seed num_seven_tenths)) num_half))"

definition generateMockEmbedding :: "env \<Rightarrow> string \<Rightarrow> num list" where
  "generateMockEmbedding E text =
     (let dimension = 384;
          hash = sint (hash_loop 0 text);
          vec = map (mock_component E hash) [0..<dimension];
          magnitude = fsqrt (foldl (\<lambda>sum val. fadd sum (fmul val val)) (Fin 0) vec)
      in map (\<lambda>val. fdiv val magnitude) vec)"

text \<open>\<^verbatim>\<open>createEmbedding\<close> never throws: without a key, and on any failure of the request,
  it returns the mock embedding.\<close>

definition createEmbedding :: "env \<Rightarrow> string \<Rightarrow> world \<Rightarrow> num list \<times> world" where
  "createEmbedding E text w =
     (let w' = w\<lparr>calls := calls w @ [CreateEmbedding text]\<rparr>
      in if \<not> LIGHTNING_API_KEY E then (generateMockEmbedding E text, w')
         else (case fetch_embeddings E text of
                 Inl msg \<Rightarrow> (generateMockEmbedding E text, w')
               | Inr embedding \<Rightarrow> (embedding, w')))"

definition generateAnswer :: "env \<Rightarrow> string \<Rightarrow> world \<Rightarrow> string \<times> world" where
  "generateAnswer E prompt w =
     (let w' = w\<lparr>calls := calls w @ [GenerateAnswer prompt]\<rparr>
      in if \<not> LIGHTNING_API_KEY E then (mock_answer E prompt, w')
         else (case fetch_completions E prompt of
                 Inl msg \<Rightarrow> (mock_answer E prompt, w')
               | Inr content \<Rightarrow> (content, w')))"

section \<open>sanityClient.js\<close>

text \<open>The argument of \<^verbatim>\<open>saveDocument\<close>: \<^verbatim>\<open>{title, contentSnippet, fullText, source}\<close>.\<close>

record doc_input =
  in_title :: string
  in_contentSnippet :: string
  in_fullText :: string
  in_source :: string

text \<open>\<^verbatim>\<open>saveDocument\<close>: the document is created in the dataset under the id the service
  gives it, and returned with that id. A rejection is thrown again with a prefix.\<close>

definition saveDocument :: "env \<Rightarrow> doc_input \<Rightarrow> world \<Rightarrow> (error + sanity_doc) \<times> world" where
  "saveDocument E doc w =
     (let w' = w\<lparr>calls := calls w @ [SaveDocument (in_fullText doc)]\<rparr>;
          document =
            \<lparr>doc_id = '''', doc_type = ''researchDoc'',
             title = (if in_title doc = '''' then ''Untitled Document'' else in_title doc),
             contentSnippet = in_contentSnippet doc, fullText = in_fullText doc,
             doc_source = in_source doc, createdAt = date_now E\<rparr>
      in case client_create E document of
           Inl msg \<Rightarrow> (Inl (Error (''Failed to save document to Sanity: '' @ msg)), w')
         | Inr new_id \<Rightarrow>
             (let result = document\<lparr>doc_id := new_id\<rparr>
              in (Inr result, w'\<lparr>sanity := (sanity w')(new_id \<mapsto> result)\<rparr>)))"

text \<open>\<^verbatim>\<open>getDocument\<close>: the document of that id, \<open>None\<close> (\<^verbatim>\<open>undefined\<close>) when the dataset
  has none; a rejection is thrown again with a prefix.\<close>

definition getDocument :: "env \<Rightarrow> string \<Rightarrow> world \<Rightarrow> (error + sanity_doc option) \<times> world" where
  "getDocument E docId w =
     (let w' = w\<lparr>calls := calls w @ [GetDocument docId]\<rparr>
      in case client_getDocument_fault E docId of
           Some msg \<Rightarrow> (Inl (Error (''Failed to fetch document: '' @ msg)), w')
         | None \<Rightarrow> (Inr (sanity w' docId), w'))"

section \<open>ingest.js\<close>

text \<open>\<^verbatim>\<open>String.prototype.split(sep)\<close> for a separator of one character: the pieces
  between the separators, at least one.\<close>

fun js_split :: "char \<Rightarrow> string \<Rightarrow> string list" where
  "js_split sep [] = [[]]"
| "js_split sep (c # cs) =
     (if c = sep then [] # js_split sep cs
      else (case js_split sep cs of
              [] \<Rightarrow> [[c]]
            | piece # pieces \<Rightarrow> (c # piece) # pieces))"

text \<open>\<^verbatim>\<open>title = text.split('\n')[0].substring(0, 100) || 'Untitled'\<close>. Reading
  \<^verbatim>\<open>.substring\<close> of an element the array does not have throws a TypeError.\<close>

definition derive_title :: "string \<Rightarrow> error + string" where
  "derive_title text =
     (case js_split (CHR 0x0A) text of
        [] \<Rightarrow> Inl (Error ''Cannot read properties of undefined'')
      | line # rest \<Rightarrow>
          (let t = take 100 line in Inr (if t = '''' then ''Untitled'' else t)))"

text \<open>\<^verbatim>\<open>contentSnippet = text.substring(0, 200) + (text.length > 200 ? '...' : '')\<close>.\<close>

definition derive_snippet :: "string \<Rightarrow> string" where
  "derive_snippet text = take 200 text @ (if length text > 200 then ''...'' else '''')"

text \<open>\<^verbatim>\<open>ingestDocument(text, source = 'unknown')\<close>: title and snippet, then
  \<^verbatim>\<open>saveDocument\<close>, then \<^verbatim>\<open>createEmbedding\<close>, then \<^verbatim>\<open>upsertVector\<close> under the id of the
  saved document. Any error is caught and thrown again with a prefix; nothing is undone.\<close>

record ingest_result =
  sanityId :: string
  redisId :: string
  ingest_title :: string

definition ingestDocument ::
  "env \<Rightarrow> string \<Rightarrow> string \<Rightarrow> world \<Rightarrow> (error + ingest_result) \<times> world" where
  "ingestDocument E text source w =
     (case derive_title text of
        Inl e \<Rightarrow> (Inl (Error (''Failed to ingest document: '' @ message e)), w)
      | Inr ttl \<Rightarrow>
          (let snippet = derive_snippet text
           in case saveDocument E
                     \<lparr>in_title = ttl, in_contentSnippet = snippet, in_fullText = text,
                      in_source = source\<rparr> w of
                (Inl e, w1) \<Rightarrow>
                  (Inl (Error (''Failed to ingest document: '' @ message e)), w1)
              | (Inr sanityDoc, w1) \<Rightarrow>
                  (case createEmbedding E text w1 of
                     (embedding, w2) \<Rightarrow>
                       (case upsertVector E (doc_id sanityDoc) embedding
                               [''title'' \<mapsto> ttl, ''source'' \<mapsto> source, ''snippet'' \<mapsto> snippet]
                               w2 of
                          (Inl e, w3) \<Rightarrow>
                            (Inl (Error (''Failed to ingest document: '' @ message e)), w3)
                        | (Inr redisResult, w3) \<Rightarrow>
                            (Inr \<lparr>sanityId = doc_id sanityDoc, redisId = res_id redisResult,
                                  ingest_title = ttl\<rparr>, w3)))))"

section \<open>query.js\<close>

text \<open>A context as the loop of \<^verbatim>\<open>queryKnowledge\<close> builds it: \<^verbatim>\<open>{text, score, title}\<close>.\<close>

record ctx =
  ctx_text :: string
  ctx_score :: num
  ctx_title :: string

text \<open>The context of a hit whose document was fetched:
  \<^verbatim>\<open>fullDoc.contentSnippet || fullDoc.fullText?.substring(0, 500) || 'No content'\<close>.\<close>

definition context_of_document :: "hit \<Rightarrow> sanity_doc \<Rightarrow> ctx" where
  "context_of_document doc fullDoc =
     \<lparr>ctx_text =
        (if contentSnippet fullDoc = ''''
         then (if take 500 (fullText fullDoc) = '''' then ''No content''
               else take 500 (fullText fullDoc))
         else contentSnippet fullDoc),
      ctx_score = score doc,
      ctx_title = title fullDoc\<rparr>"

text \<open>\<^verbatim>\<open>object.field || fallback\<close> on a metadata object: the fallback when the field is
  absent or the empty string.\<close>

definition field_or :: "(string \<rightharpoonup> string) \<Rightarrow> string \<Rightarrow> string \<Rightarrow> string" where
  "field_or obj field fallback =
     (case obj field of
        None \<Rightarrow> fallback
      | Some v \<Rightarrow> (if v = '''' then fallback else v))"

text \<open>The context of a hit whose document could not be fetched (the \<^verbatim>\<open>catch\<close> branch):
  built from the metadata stored with the vector.\<close>

definition context_of_metadata :: "hit \<Rightarrow> ctx" where
  "context_of_metadata doc =
     \<lparr>ctx_text = field_or (hit_metadata doc) ''snippet'' ''Content unavailable'',
      ctx_score = score doc,
      ctx_title = field_or (hit_metadata doc) ''title'' ''Untitled''\<rparr>"

text \<open>The loop over the hits. \<^verbatim>\<open>getDocument\<close> throwing, and \<^verbatim>\<open>getDocument\<close> returning
  \<^verbatim>\<open>undefined\<close> (reading a field of it throws inside the same \<^verbatim>\<open>try\<close>), both end in the
  \<^verbatim>\<open>catch\<close> branch.\<close>

fun contexts_loop :: "env \<Rightarrow> hit list \<Rightarrow> ctx list \<Rightarrow> world \<Rightarrow> ctx list \<times> world" where
  "contexts_loop E [] contexts w = (contexts, w)"
| "contexts_loop E (doc # docs) contexts w =
     (case getDocument E (hit_id doc) w of
        (Inl e, w') \<Rightarrow> contexts_loop E docs (contexts @ [context_of_metadata doc]) w'
      | (Inr None, w') \<Rightarrow> contexts_loop E docs (contexts @ [context_of_metadata doc]) w'
      | (Inr (Some fullDoc), w') \<Rightarrow>
          contexts_loop E docs (contexts @ [context_of_document doc fullDoc]) w')"

text \<open>A natural number in decimal, as a template literal prints \<^verbatim>\<open>idx + 1\<close>.\<close>

fun dec :: "nat \<Rightarrow> string" where
  "dec n = (if n < 10 then [char_of (48 + n)] else dec (n div 10) @ [char_of (48 + n mod 10)])"

declare dec.simps [simp del]

text \<open>\<^verbatim>\<open>Array.prototype.join(sep)\<close>.\<close>

fun js_join :: "string \<Rightarrow> string list \<Rightarrow> string" where
  "js_join sep [] = ''''"
| "js_join sep [x] = x"
| "js_join sep (x # y # ys) = x @ sep @ js_join sep (y # ys)"

definition context_line :: "env \<Rightarrow> nat \<times> ctx \<Rightarrow> string" where
  "context_line E p =
     (case p of (idx, ctx) \<Rightarrow>
        ''Context '' @ dec (idx + 1) @ '' (relevance: '' @ toFixed3 E (ctx_score ctx) @ ''):''
        @ [CHR 0x0A] @ ctx_text ctx)"

definition build_prompt :: "env \<Rightarrow> ctx list \<Rightarrow> string \<Rightarrow> string" where
  "build_prompt E contexts question =
     (let contextText = js_join [CHR 0x0A, CHR 0x0A] (map (context_line E) (enumerate 0 contexts))
      in ''You are a helpful research assistant. Answer the user'' @ [CHR 0x27]
         @ ''s question based on the provided contexts.'' @ [CHR 0x0A, CHR 0x0A]
         @ ''Context:'' @ [CHR 0x0A] @ contextText @ [CHR 0x0A, CHR 0x0A]
         @ ''Question: '' @ question @ [CHR 0x0A, CHR 0x0A]
         @ ''Provide a clear, concise answer based on the contexts above. If the contexts don''
         @ [CHR 0x27] @ ''t contain enough information, say so.'')"

text \<open>The result of \<^verbatim>\<open>queryKnowledge\<close>: \<^verbatim>\<open>{answer, contexts}\<close>, a context of the result
  being the pair \<^verbatim>\<open>{text, score}\<close>.\<close>

record query_result =
  answer :: string
  contexts_out :: "(string \<times> num) list"

definition queryKnowledge ::
  "env \<Rightarrow> string \<Rightarrow> int \<Rightarrow> world \<Rightarrow> (error + query_result) \<times> world" where
  "queryKnowledge E question topK w =
     (case createEmbedding E question w of
        (queryEmbedding, w1) \<Rightarrow>
          (case queryTopK E queryEmbedding topK w1 of
             (Inl e, w2) \<Rightarrow> (Inl (Error (''Failed to process query: '' @ message e)), w2)
           | (Inr similarDocs, w2) \<Rightarrow>
               if length similarDocs = 0
               then (Inr \<lparr>answer = ''No relevant documents found. Please ingest some documents first.'',
                          contexts_out = []\<rparr>, w2)
               else (case contexts_loop E similarDocs [] w2 of
                       (contexts, w3) \<Rightarrow>
                         (case generateAnswer E (build_prompt E contexts question) w3 of
                            (ans, w4) \<Rightarrow>
                              (Inr \<lparr>answer = ans,
                                    contexts_out = map (\<lambda>c. (ctx_text c, ctx_score c)) contexts\<rparr>,
                               w4)))))"

section \<open>server.js: POST /api/ingest\<close>

text \<open>\<^verbatim>\<open>String.prototype.trim\<close>: white space and line terminators are removed at both
  ends. Of the code units below 256 these are 9 to 13, 32 and 160.\<close>

definition js_whitespace :: "char \<Rightarrow> bool" where
  "js_whitespace c \<longleftrightarrow> (of_char c :: nat) \<in> {9, 10, 11, 12, 13, 32, 160}"

definition js_trim :: "string \<Rightarrow> string" where
  "js_trim s = rev (dropWhile js_whitespace (rev (dropWhile js_whitespace s)))"

text \<open>The request: the uploaded file, if any, and the field \<^verbatim>\<open>text\<close> of the body, if any.\<close>

record upload =
  originalname :: string
  mimetype :: string
  buffer :: string

record ingest_request =
  req_file :: "upload option"
  req_body_text :: "string option"

text \<open>The response: the status and the fields of the JSON body.\<close>

record response =
  status :: nat
  json :: "(string \<times> string) list"

text \<open>The handler from the check of the text on, once \<^verbatim>\<open>text\<close> and \<^verbatim>\<open>source\<close> are set.\<close>

definition ingest_checked :: "env \<Rightarrow> string \<Rightarrow> string \<Rightarrow> world \<Rightarrow> response \<times> world" where
  "ingest_checked E text source w =
     (if js_trim text = '''' then (\<lparr>status = 400, json = [(''error'', ''Empty content'')]\<rparr>, w)
      else (case ingestDocument E text source w of
              (Inl e, w') \<Rightarrow>
                (\<lparr>status = 500,
                  json = [(''error'', if message e = '''' then ''Failed to ingest document''
                                      else message e)]\<rparr>, w')
            | (Inr result, w') \<Rightarrow>
                (\<lparr>status = 200,
                  json = [(''status'', ''ingest_success''), (''sanityId'', sanityId result),
                          (''redisId'', redisId result),
                          (''message'', ''Document ingested and vectorized successfully'')]\<rparr>,
                 w')))"

definition post_api_ingest :: "env \<Rightarrow> ingest_request \<Rightarrow> world \<Rightarrow> response \<times> world" where
  "post_api_ingest E req w =
     (case req_file req of
        Some file \<Rightarrow>
          if mimetype file = ''application/pdf''
          then (case pdfParse E (buffer file) of
                  Inl msg \<Rightarrow>
                    (\<lparr>status = 500,
                      json = [(''error'', if msg = '''' then ''Failed to ingest document''
                                          else msg)]\<rparr>, w)
                | Inr text \<Rightarrow> ingest_checked E text (originalname file) w)
          else if mimetype file = ''text/plain''
          then ingest_checked E (buffer file) (originalname file) w
          else (\<lparr>status = 400, json = [(''error'', ''Unsupported file type. Use PDF or TXT.'')]\<rparr>, w)
      | None \<Rightarrow>
          (case req_body_text req of
             None \<Rightarrow> (\<lparr>status = 400, json = [(''error'', ''No file or text provided'')]\<rparr>, w)
           | Some text \<Rightarrow>
               if text = ''''
               then (\<lparr>status = 400, json = [(''error'', ''No file or text provided'')]\<rparr>, w)
               else ingest_checked E text ''pasted_text'' w))"

text \<open>The text a request carries, for stating what the handler does with it: the buffer of
  a plain-text file, what pdf-parse extracts from a PDF, the pasted text otherwise.\<close>

definition request_text :: "env \<Rightarrow> ingest_request \<Rightarrow> string option" where
  "request_text E req =
     (case req_file req of
        Some file \<Rightarrow>
          if mimetype file = ''application/pdf''
          then (case pdfParse E (buffer file) of Inl msg \<Rightarrow> None | Inr text \<Rightarrow> Some text)
          else if mimetype file = ''text/plain'' then Some (buffer file)
          else None
      | None \<Rightarrow> req_body_text req)"

section \<open>The words of the specification\<close>

text \<open>The sums of the cosine similarity in binary64, as folds from the left: the rounded dot
  product and the rounded sum of squares.\<close>

definition fl_dot :: "num list \<Rightarrow> num list \<Rightarrow> num" where
  "fl_dot q v = foldl (\<lambda>acc p. fadd acc (fmul (fst p) (snd p))) (Fin 0) (zip q v)"

definition fl_sumsq :: "num list \<Rightarrow> num" where
  "fl_sumsq v = foldl (\<lambda>acc x. fadd acc (fmul x x)) (Fin 0) v"

text \<open>The score of a query and a stored vector of the same length in binary64: the rounded
  dot product over the rounded product of the two rounded magnitudes, and \<open>0\<close> when that
  product is \<open>0\<close>.\<close>

definition fl_magnitude :: "num list \<Rightarrow> num list \<Rightarrow> num" where
  "fl_magnitude q v = fmul (fsqrt (fl_sumsq q)) (fsqrt (fl_sumsq v))"

definition computed_score :: "num list \<Rightarrow> num list \<Rightarrow> num" where
  "computed_score q v =
     (if fl_magnitude q v = Fin 0 then Fin 0 else fdiv (fl_dot q v) (fl_magnitude q v))"

text \<open>The finite numbers, and the numbers that are not below zero (NaN among them).\<close>

fun is_finite :: "num \<Rightarrow> bool" where
  "is_finite (Fin a) = True"
| "is_finite x = False"

fun not_negative :: "num \<Rightarrow> bool" where
  "not_negative (Fin a) = (0 \<le> a)"
| "not_negative NInf = False"
| "not_negative x = True"

text \<open>The order of the numbers; NaN is comparable with nothing.\<close>

fun num_le :: "num \<Rightarrow> num \<Rightarrow> bool" where
  "num_le NaN y = False"
| "num_le x NaN = False"
| "num_le NInf y = True"
| "num_le x PInf = True"
| "num_le (Fin a) (Fin b) = (a \<le> b)"
| "num_le x y = False"

text \<open>The hit of a stored record for a query: its id is the key behind the prefix
  \<^verbatim>\<open>doc:\<close>, its score the computed score of the query and the stored vector.\<close>

definition stored_hit :: "num list \<Rightarrow> string \<Rightarrow> stored \<Rightarrow> hit" where
  "stored_hit q key rec =
     \<lparr>hit_id = drop 4 key, score = computed_score q (vector rec), hit_metadata = metadata rec\<rparr>"

text \<open>The hits of the records under the keys \<open>ks\<close>, in the order of \<open>ks\<close>.\<close>

definition stored_hits :: "(string \<rightharpoonup> stored) \<Rightarrow> num list \<Rightarrow> string list \<Rightarrow> hit list" where
  "stored_hits db q ks = map (\<lambda>key. stored_hit q key (the (db key))) ks"

text \<open>Every key of \<open>ks\<close> holds a record whose vector has the length of the query.\<close>

definition same_dimension :: "(string \<rightharpoonup> stored) \<Rightarrow> num list \<Rightarrow> string list \<Rightarrow> bool" where
  "same_dimension db q ks =
     list_all (\<lambda>key. case db key of None \<Rightarrow> False | Some rec \<Rightarrow> length (vector rec) = length q) ks"

text \<open>The first line of a text: what stands before the first line feed.\<close>

definition first_line :: "string \<Rightarrow> string" where
  "first_line text = takeWhile (\<lambda>c. c \<noteq> CHR 0x0A) text"

text \<open>The title and the snippet in the words of the specification: the first line cut to
  100 characters, or \<^verbatim>\<open>Untitled\<close> when that is empty; the first 200 characters, with
  the marker \<^verbatim>\<open>...\<close> when the text is longer.\<close>

definition spec_title :: "string \<Rightarrow> string" where
  "spec_title text =
     (if take 100 (first_line text) = '''' then ''Untitled'' else take 100 (first_line text))"

definition spec_snippet :: "string \<Rightarrow> string" where
  "spec_snippet text = (if 200 < length text then take 200 text @ ''...'' else take 200 text)"

text \<open>The join of the index and the document store: every key of the index is
  \<^verbatim>\<open>doc:\<close> followed by the id of a document the store holds.\<close>

definition index_joined :: "world \<Rightarrow> bool" where
  "index_joined w \<longleftrightarrow>
     (\<forall>key \<in> dom (redis w). \<exists>ident. key = ''doc:'' @ ident \<and> ident \<in> dom (sanity w))"

text \<open>The lookup of a document fails when the request is rejected or the store has no
  document of that id.\<close>

definition doc_unavailable :: "env \<Rightarrow> world \<Rightarrow> string \<Rightarrow> bool" where
  "doc_unavailable E w ident \<longleftrightarrow>
     client_getDocument_fault E ident \<noteq> None \<or> sanity w ident = None"

text \<open>The context the specification asks for a hit: from the stored document when the
  lookup succeeds, from the payload of the hit when it fails.\<close>

definition hit_context :: "env \<Rightarrow> world \<Rightarrow> hit \<Rightarrow> ctx" where
  "hit_context E w h =
     (if doc_unavailable E w (hit_id h) then context_of_metadata h
      else context_of_document h (the (sanity w (hit_id h))))"

section \<open>Concrete inputs\<close>

text \<open>The numbers \<open>0\<close> and \<open>1\<close>, and the powers of two \<open>2^e\<close> for
  \<open>-1074 \<le> e \<le> 1023\<close>.\<close>

definition num_zero :: num where
  "num_zero = num_of_int 0"

definition num_one :: num where
  "num_one = num_of_int 1"

definition num_pow2 :: "int \<Rightarrow> num" where
  "num_pow2 e = Fin (2 ^ nat (e + 1074))"

text \<open>An environment in which every service answers: the provider returns the embedding
  \<open>[num_one, num_zero]\<close>, Sanity names the created document \<^verbatim>\<open>d1\<close>. The mock embedding is not
  computed under \<open>E0\<close>, so \<^verbatim>\<open>Math.sin\<close> and \<^verbatim>\<open>Math.cos\<close> are only given their values
  at \<open>0\<close>.\<close>

definition E0 :: env where
  "E0 = \<lparr>LIGHTNING_API_KEY = True,
         fetch_embeddings = (\<lambda>t. Inr [num_one, num_zero]),
         fetch_completions = (\<lambda>p. Inr ''an answer''),
         mock_answer = (\<lambda>p. ''a mock answer''),
         client_create = (\<lambda>d. Inr ''d1''),
         client_getDocument_fault = (\<lambda>i. None),
         redis_fault = None,
         client_keys = (\<lambda>db. []),
         date_now = 1,
         toFixed3 = (\<lambda>r. ''0.000''),
         math_sin = (\<lambda>x. num_zero),
         math_cos = (\<lambda>x. num_one),
         pdfParse = (\<lambda>b. Inr b)\<rparr>"

definition empty_world :: world where
  "empty_world = \<lparr>sanity = Map.empty, redis = Map.empty, calls = []\<rparr>"

text \<open>The environment \<open>E0\<close> with a given reply of \<^verbatim>\<open>KEYS doc:*\<close>.\<close>

definition E_keys :: "string list \<Rightarrow> env" where
  "E_keys ks = E0\<lparr>client_keys := \<lambda>db. ks\<rparr>"

text \<open>The index after one upsert: the record \<^verbatim>\<open>a\<close> with a vector of length 2.\<close>

definition world_a :: world where
  "world_a = snd (upsertVector E0 ''a'' [num_one, num_zero] Map.empty empty_world)"

text \<open>The index after the records \<^verbatim>\<open>a\<close>, \<^verbatim>\<open>b\<close>, \<^verbatim>\<open>c\<close> were inserted in this order, at
  the times 1, 2, 3, all with the same vector.\<close>

definition world_abc :: world where
  "world_abc =
     snd (upsertVector (E0\<lparr>date_now := 3\<rparr>) ''c'' [num_one, num_zero] Map.empty
       (snd (upsertVector (E0\<lparr>date_now := 2\<rparr>) ''b'' [num_one, num_zero] Map.empty
         (snd (upsertVector (E0\<lparr>date_now := 1\<rparr>) ''a'' [num_one, num_zero] Map.empty empty_world)))))"

text \<open>The index after the id \<^verbatim>\<open>a\<close> was upserted twice.\<close>

definition world_overwritten :: world where
  "world_overwritten =
     snd (upsertVector (E0\<lparr>date_now := 2\<rparr>) ''a'' [num_zero, num_one] [''title'' \<mapsto> ''new'']
       (snd (upsertVector E0 ''a'' [num_one, num_zero] [''title'' \<mapsto> ''old''] empty_world)))"

text \<open>The store and the index after one ingest under \<open>E0\<close>.\<close>

definition world_d1 :: world where
  "world_d1 = snd (ingestDocument E0 ''first document'' ''notes.txt'' empty_world)"

text \<open>Three indexed records, of which \<^verbatim>\<open>b\<close> has no document in the store.\<close>

definition stored_doc :: "string \<Rightarrow> string \<Rightarrow> sanity_doc" where
  "stored_doc ident snippet =
     \<lparr>doc_id = ident, doc_type = ''researchDoc'', title = ''Title of '' @ ident,
      contentSnippet = snippet, fullText = snippet, doc_source = ''notes.txt'', createdAt = 1\<rparr>"

definition world_three :: world where
  "world_three =
     \<lparr>sanity = [''a'' \<mapsto> stored_doc ''a'' ''text of a'', ''c'' \<mapsto> stored_doc ''c'' ''text of c''],
      redis =
        [''doc:a'' \<mapsto> \<lparr>vector = [num_one, num_zero], metadata = [''snippet'' \<mapsto> ''payload of a''], timestamp = 1\<rparr>,
         ''doc:b'' \<mapsto> \<lparr>vector = [num_one, num_zero],
                        metadata = [''snippet'' \<mapsto> ''payload of b'', ''title'' \<mapsto> ''B''],
                        timestamp = 2\<rparr>,
         ''doc:c'' \<mapsto> \<lparr>vector = [num_zero, num_one], metadata = Map.empty, timestamp = 3\<rparr>],
      calls = []\<rparr>"

text \<open>The hits of the query \<open>[num_one, num_zero]\<close> on \<open>world_three\<close>.\<close>

definition hits_three :: "hit list" where
  "hits_three =
     [\<lparr>hit_id = ''a'', score = num_one, hit_metadata = [''snippet'' \<mapsto> ''payload of a'']\<rparr>,
      \<lparr>hit_id = ''b'', score = num_one,
       hit_metadata = [''snippet'' \<mapsto> ''payload of b'', ''title'' \<mapsto> ''B'']\<rparr>,
      \<lparr>hit_id = ''c'', score = num_zero, hit_metadata = Map.empty\<rparr>]"

section \<open>Rounding\<close>

lemma round_ratio_zero: "0 < b \<Longrightarrow> round_ratio 0 b = Fin 0"
  by (simp add: round_ratio_def Let_def)

lemma bitlen_power2: "bitlen ((2::int) ^ e) = int e + 1"
  using bitlen_twopow_add_eq [of 0 e] by (simp del: power_numeral)

lemma round_ratio_pow2:
  assumes b: "0 < b" and e: "e < 2098"
  shows "round_ratio (2 ^ e * b) b = Fin (2 ^ e)"
proof -
  define s where "s = nat (bitlen ((2::int) ^ e) - 53)"
  define d where "d = b * 2 ^ s"
  have s_le: "s \<le> e" by (simp add: s_def bitlen_power2)
  have d_pos: "0 < d" using b by (simp add: d_def)
  have m: "\<bar>2 ^ e * b\<bar> = 2 ^ e * b" using b by simp
  have dv: "(2 ^ e * b) div b = 2 ^ e" using b by simp
  have "(2::int) ^ e = 2 ^ (e - s) * 2 ^ s"
    using s_le by (simp add: power_add [symmetric])
  then have split: "2 ^ e * b = 2 ^ (e - s) * d"
    by (simp add: d_def mult.assoc mult.commute)
  have q: "(2 ^ e * b) div d = 2 ^ (e - s)"
    unfolding split using d_pos by simp
  have r: "(2 ^ e * b) mod d = 0"
    unfolding split by simp
  have n: "(2::int) ^ (e - s) * 2 ^ s = 2 ^ e"
    using s_le by (simp add: power_add [symmetric])
  have small: "\<not> (2::int) ^ 2098 \<le> 2 ^ e"
    using e by (simp del: power_numeral)
  have pos: "\<not> 2 ^ e * b < 0" using b by (simp add: not_less)
  show ?thesis
    unfolding round_ratio_def m dv s_def [symmetric] Let_def d_def [symmetric] q r
    using d_pos small pos by (simp add: n del: power_numeral)
qed

lemma round_ratio_pow2_1: "e < 2098 \<Longrightarrow> round_ratio (2 ^ e) 1 = Fin (2 ^ e)"
  using round_ratio_pow2 [of 1 e] by simp

lemma round_ratio_underflow:
  assumes a: "0 \<le> a" and b: "2 * a < b"
  shows "round_ratio a b = Fin 0"
proof -
  have ab: "a < b" using a b by linarith
  have dv: "a div b = 0" using a ab by simp
  have md: "a mod b = a" using a ab by simp
  have m: "\<bar>a\<bar> = a" using a by simp
  show ?thesis
    unfolding round_ratio_def Let_def m dv
    using a b by (simp add: dv md del: power_numeral)
qed

lemma round_ratio_form:
  assumes b: "0 < b"
  obtains n where "0 \<le> n"
    and "\<bar>a\<bar> div (b * 2 ^ nat (bitlen (\<bar>a\<bar> div b) - 53)) * 2 ^ nat (bitlen (\<bar>a\<bar> div b) - 53) \<le> n"
    and "round_ratio a b =
           (if 2 ^ 2098 \<le> n then (if a < 0 then NInf else PInf)
            else Fin (if a < 0 then - n else n))"
proof -
  define s where "s = nat (bitlen (\<bar>a\<bar> div b) - 53)"
  define d where "d = b * 2 ^ s"
  define q where "q = \<bar>a\<bar> div d"
  define q' where "q' = (if d < 2 * (\<bar>a\<bar> mod d) \<or> (2 * (\<bar>a\<bar> mod d) = d \<and> odd q) then q + 1 else q)"
  define n where "n = q' * 2 ^ s"
  have rr: "round_ratio a b =
           (if 2 ^ 2098 \<le> n then (if a < 0 then NInf else PInf)
            else Fin (if a < 0 then - n else n))"
    unfolding round_ratio_def Let_def n_def q'_def q_def d_def s_def by (rule refl)
  have d_pos: "0 < d" using b by (simp add: d_def)
  have q0: "0 \<le> q" using d_pos by (simp add: q_def pos_imp_zdiv_nonneg_iff)
  have qq: "q \<le> q'" by (simp add: q'_def)
  have n0: "0 \<le> n" using q0 qq by (simp add: n_def)
  have qn: "q * 2 ^ s \<le> n" unfolding n_def using qq by (intro mult_right_mono) auto
  show ?thesis
    by (rule that [OF n0 _ rr]) (use qn in \<open>simp add: q_def d_def s_def\<close>)
qed

lemma round_ratio_nonneg:
  assumes b: "0 < b" and a: "0 \<le> a"
  shows "round_ratio a b = PInf \<or> (\<exists>n\<ge>0. round_ratio a b = Fin n)"
proof -
  from round_ratio_form [OF b, of a] obtain n where n: "0 \<le> n"
    and rr: "round_ratio a b =
           (if 2 ^ 2098 \<le> n then (if a < 0 then NInf else PInf)
            else Fin (if a < 0 then - n else n))" by blast
  show ?thesis
  proof (cases "(2::int) ^ 2098 \<le> n")
    case True
    with rr a show ?thesis by (simp del: power_numeral)
  next
    case False
    with rr a n show ?thesis by (simp del: power_numeral)
  qed
qed

lemma round_ratio_overflow:
  assumes b: "0 < b" and a: "2 ^ 2098 * b \<le> a"
  shows "round_ratio a b = PInf"
proof -
  define t where "t = a div b"
  define s where "s = nat (bitlen t - 53)"
  have a_pos: "0 < a"
  proof -
    have "0 < (2::int) ^ 2098 * b" using b by (simp del: power_numeral)
    with a show ?thesis by linarith
  qed
  have m: "\<bar>a\<bar> = a" using a_pos by simp
  have t_big: "2 ^ 2098 \<le> t"
  proof -
    have "(2 ^ 2098 * b) div b \<le> a div b" using a b by (intro zdiv_mono1) auto
    then show ?thesis using b by (simp add: t_def del: power_numeral)
  qed
  have t_pos: "0 < t"
  proof -
    have "0 < (2::int) ^ 2098" by (simp del: power_numeral)
    with t_big show ?thesis by linarith
  qed
  from bitlen_bounds [OF t_pos]
  have lo: "2 ^ nat (bitlen t - 1) \<le> t" and hi: "t < 2 ^ nat (bitlen t)" by simp_all
  have "(2::int) ^ 2098 < 2 ^ nat (bitlen t)" using t_big hi by linarith
  then have L: "2098 < nat (bitlen t)" by (simp del: power_numeral)
  then have s_eq: "s + 53 = nat (bitlen t)" by (simp add: s_def)
  have q: "a div (b * 2 ^ s) = t div 2 ^ s"
    by (simp add: t_def zdiv_zmult2_eq)
  have "nat (bitlen t - 1) = s + 52" using s_eq L by linarith
  with lo have lo': "2 ^ 52 * 2 ^ s \<le> t" by (simp add: power_add mult.commute del: power_numeral)
  then have "(2 ^ 52 * 2 ^ s) div 2 ^ s \<le> t div 2 ^ s" by (intro zdiv_mono1) auto
  then have qlo: "2 ^ 52 \<le> t div 2 ^ s" by (simp del: power_numeral)
  have "(2::int) ^ 2098 \<le> 2 ^ 52 * 2 ^ s"
  proof -
    have "2098 \<le> 52 + s" using s_eq L by linarith
    then have "(2::int) ^ 2098 \<le> 2 ^ (52 + s)" by (intro power_increasing) auto
    then show ?thesis by (simp add: power_add del: power_numeral)
  qed
  also have "\<dots> \<le> (t div 2 ^ s) * 2 ^ s" using qlo by (intro mult_right_mono) auto
  finally have n1: "2 ^ 2098 \<le> (t div 2 ^ s) * 2 ^ s" .
  from round_ratio_form [OF b, of a] obtain n where
    le: "\<bar>a\<bar> div (b * 2 ^ nat (bitlen (\<bar>a\<bar> div b) - 53)) * 2 ^ nat (bitlen (\<bar>a\<bar> div b) - 53) \<le> n"
    and rr: "round_ratio a b =
           (if 2 ^ 2098 \<le> n then (if a < 0 then NInf else PInf)
            else Fin (if a < 0 then - n else n))" by blast
  from le have "(t div 2 ^ s) * 2 ^ s \<le> n"
    unfolding m t_def [symmetric] s_def [symmetric] q .
  with n1 have "2 ^ 2098 \<le> n" by linarith
  with rr a_pos show ?thesis by (simp del: power_numeral)
qed

lemma is_pos_round_ratio: "is_pos (round_ratio a 1) \<longleftrightarrow> 0 < a"
proof (cases "a = 0")
  case True
  then show ?thesis by (simp add: round_ratio_zero)
next
  case False
  define m where "m = \<bar>a\<bar>"
  define s where "s = nat (bitlen m - 53)"
  have mpos: "0 < m" using False by (simp add: m_def)
  from bitlen_bounds [OF mpos] have lo: "2 ^ nat (bitlen m - 1) \<le> m" by simp
  have "s \<le> nat (bitlen m - 1)" by (simp add: s_def)
  then have "(2::int) ^ s \<le> 2 ^ nat (bitlen m - 1)" by (intro power_increasing) auto
  with lo have "2 ^ s \<le> m" by linarith
  then have "(2 ^ s) div 2 ^ s \<le> m div 2 ^ s" by (intro zdiv_mono1) auto
  then have "1 \<le> m div 2 ^ s" by simp
  then have "1 * 2 ^ s \<le> m div 2 ^ s * 2 ^ s" by (intro mult_right_mono) auto
  then have big: "0 < m div 2 ^ s * 2 ^ s"
  proof -
    have "0 < (2::int) ^ s" by simp
    with \<open>1 * 2 ^ s \<le> m div 2 ^ s * 2 ^ s\<close> show ?thesis by linarith
  qed
  from round_ratio_form [of 1 a] obtain n where
    le: "\<bar>a\<bar> div (1 * 2 ^ nat (bitlen (\<bar>a\<bar> div 1) - 53)) * 2 ^ nat (bitlen (\<bar>a\<bar> div 1) - 53) \<le> n"
    and rr: "round_ratio a 1 =
           (if 2 ^ 2098 \<le> n then (if a < 0 then NInf else PInf)
            else Fin (if a < 0 then - n else n))" by (rule_tac round_ratio_form [of 1 a]) auto
  from le have "m div 2 ^ s * 2 ^ s \<le> n" by (simp add: m_def s_def)
  with big have npos: "0 < n" by linarith
  show ?thesis
  proof (cases "(2::int) ^ 2098 \<le> n")
    case True
    with rr \<open>a \<noteq> 0\<close> show ?thesis by (cases "a < 0") (simp_all del: power_numeral)
  next
    case False
    with rr npos \<open>a \<noteq> 0\<close> show ?thesis by (cases "a < 0") (simp_all del: power_numeral)
  qed
qed

lemma isqrt_bounds: "0 \<le> n \<Longrightarrow> 0 \<le> isqrt n \<and> isqrt n * isqrt n \<le> n \<and> n < (isqrt n + 1) * (isqrt n + 1)"
proof (induction n rule: isqrt.induct)
  case (1 n)
  show ?case
  proof (cases "n < 2")
    case True
    with "1.prems" have "n = 0 \<or> n = 1" by linarith
    then show ?thesis by (subst (1 2 3 4 5) isqrt.simps) auto
  next
    case False
    define k where "k = n div 4"
    define r where "r = isqrt k"
    have k0: "0 \<le> k" using "1.prems" by (simp add: k_def)
    from "1.IH" [OF False] k0
    have r0: "0 \<le> r" and lo: "r * r \<le> k" and hi: "k < (r + 1) * (r + 1)"
      by (simp_all add: k_def r_def)
    have n1: "4 * k \<le> n" and n2: "n \<le> 4 * k + 3" by (simp_all add: k_def)
    have e1: "(2 * r) * (2 * r) = 4 * (r * r)" by simp
    have e2: "(2 * r + 1 + 1) * (2 * r + 1 + 1) = 4 * ((r + 1) * (r + 1))" by (simp add: algebra_simps)
    have e3: "(r + 1) * (r + 1) = r * r + 2 * r + 1" by (simp add: algebra_simps)
    have e4: "(2 * r + 1) * (2 * r + 1) = 4 * (r * r) + 4 * r + 1" by (simp add: algebra_simps)
    have eq: "isqrt n = (if (2 * r + 1) * (2 * r + 1) \<le> n then 2 * r + 1 else 2 * r)"
      using False by (subst isqrt.simps) (simp add: Let_def r_def k_def)
    show ?thesis
    proof (cases "(2 * r + 1) * (2 * r + 1) \<le> n")
      case True
      have "n < (2 * r + 1 + 1) * (2 * r + 1 + 1)"
        unfolding e2 using hi n2 by linarith
      with True r0 show ?thesis by (simp add: eq)
    next
      case F: False
      have "(2 * r) * (2 * r) \<le> n" unfolding e1 using lo n1 by linarith
      with F r0 show ?thesis by (simp add: eq)
    qed
  qed
qed

lemma isqrt_0: "isqrt 0 = 0"
  by (subst isqrt.simps) simp

lemma isqrt_square_pow2: "isqrt (2 ^ e * 2 ^ e) = 2 ^ e"
proof (induction e)
  case 0
  show ?case by (subst isqrt.simps) simp
next
  case (Suc e)
  have n: "(2::int) ^ Suc e * 2 ^ Suc e = 4 * (2 ^ e * 2 ^ e)" by simp
  have big: "\<not> 4 * ((2::int) ^ e * 2 ^ e) < 2"
  proof -
    have "1 \<le> (2::int) ^ e * 2 ^ e" by (simp add: power_add [symmetric])
    then show ?thesis by linarith
  qed
  have sq: "(2 * 2 ^ e + 1) * (2 * 2 ^ e + 1) = 4 * ((2::int) ^ e * 2 ^ e) + 4 * 2 ^ e + 1"
    by (simp add: algebra_simps)
  have no: "\<not> (2 * 2 ^ e + 1) * (2 * 2 ^ e + 1) \<le> 4 * ((2::int) ^ e * 2 ^ e)"
  proof -
    have "0 < (2::int) ^ e" by simp
    then show ?thesis unfolding sq by linarith
  qed
  show ?case
    unfolding n by (subst isqrt.simps) (use big no Suc.IH in \<open>simp add: Let_def\<close>)
qed

lemma round_sqrt_0: "round_sqrt 0 = Fin 0"
  by (simp add: round_sqrt_def Let_def isqrt_0)

lemma round_sqrt_pow2: "round_sqrt (2 ^ e * 2 ^ e) = Fin (2 ^ e)"
proof -
  define s where "s = nat (bitlen ((2::int) ^ e) - 53)"
  define q where "q = (2::int) ^ (e - s)"
  have s_le: "s \<le> e" by (simp add: s_def bitlen_power2)
  have split: "(2::int) ^ e = q * 2 ^ s"
    using s_le by (simp add: q_def power_add [symmetric])
  have dv: "(2::int) ^ e div 2 ^ s = q"
    unfolding split by simp
  have q0: "0 < q" by (simp add: q_def)
  have four: "(4::int) ^ s = 2 ^ s * 2 ^ s"
    by (simp add: power_mult_distrib [symmetric])
  have N: "4 * ((2::int) ^ e * 2 ^ e) = (4 * (q * q)) * 4 ^ s"
    unfolding split four by (simp add: algebra_simps)
  have mid: "(2 * q + 1) ^ 2 = 4 * (q * q) + 4 * q + 1"
    by (simp add: power2_eq_square algebra_simps)
  have gt: "(4 * (q * q)) * 4 ^ s < (2 * q + 1) ^ 2 * 4 ^ s"
    unfolding mid using q0 by (intro mult_strict_right_mono) auto
  have c1: "\<not> (2 * q + 1) ^ 2 * 4 ^ s < 4 * ((2::int) ^ e * 2 ^ e)"
    unfolding N using gt by linarith
  have c2: "(2 * q + 1) ^ 2 * 4 ^ s \<noteq> 4 * ((2::int) ^ e * 2 ^ e)"
    unfolding N using gt by linarith
  show ?thesis
    unfolding round_sqrt_def isqrt_square_pow2 s_def [symmetric] Let_def dv
    using c1 c2 by (simp add: split)
qed

lemma round_sqrt_Fin: "\<exists>r. round_sqrt N = Fin r"
  by (simp add: round_sqrt_def Let_def)

section \<open>The arithmetic of numbers\<close>

lemma fmul_zero_left: "fmul (Fin 0) (Fin b) = Fin 0"
  by (simp add: round_ratio_zero del: power_numeral)

lemma fmul_zero_right: "fmul (Fin a) (Fin 0) = Fin 0"
  by (simp add: round_ratio_zero del: power_numeral)

lemma fadd_zero_zero: "fadd (Fin 0) (Fin 0) = Fin 0"
  by (simp add: round_ratio_zero)

lemma fadd_zero_pow2: "e < 2098 \<Longrightarrow> fadd (Fin 0) (Fin (2 ^ e)) = Fin (2 ^ e)"
  by (simp add: round_ratio_pow2_1 del: power_numeral)

lemma fadd_pow2_zero: "e < 2098 \<Longrightarrow> fadd (Fin (2 ^ e)) (Fin 0) = Fin (2 ^ e)"
  by (simp add: round_ratio_pow2_1 del: power_numeral)

lemma fmul_pow2:
  assumes "1074 \<le> i + j" and "i + j < 3172"
  shows "fmul (Fin (2 ^ i)) (Fin (2 ^ j)) = Fin (2 ^ (i + j - 1074))"
proof -
  have "(2::int) ^ i * 2 ^ j = 2 ^ (i + j - 1074) * 2 ^ 1074"
    using assms(1) by (simp add: power_add [symmetric] del: power_numeral)
  moreover have "round_ratio (2 ^ (i + j - 1074) * 2 ^ 1074) (2 ^ 1074) = Fin (2 ^ (i + j - 1074))"
    using assms(2) by (intro round_ratio_pow2) (simp_all del: power_numeral)
  ultimately show ?thesis by (simp del: power_numeral)
qed

lemma fmul_pow2_overflow:
  assumes "3172 \<le> i + j"
  shows "fmul (Fin (2 ^ i)) (Fin (2 ^ j)) = PInf"
proof -
  have "(2::int) ^ 2098 * 2 ^ 1074 = 2 ^ 3172"
    by (simp add: power_add [symmetric] del: power_numeral)
  also have "\<dots> \<le> 2 ^ (i + j)"
    using assms by (intro power_increasing) auto
  finally have "(2::int) ^ 2098 * 2 ^ 1074 \<le> 2 ^ i * 2 ^ j"
    by (simp add: power_add del: power_numeral)
  then have "round_ratio (2 ^ i * 2 ^ j) (2 ^ 1074) = PInf"
    by (intro round_ratio_overflow) (simp_all del: power_numeral)
  then show ?thesis by (simp del: power_numeral)
qed

lemma fmul_pow2_underflow:
  assumes "i + j < 1073"
  shows "fmul (Fin (2 ^ i)) (Fin (2 ^ j)) = Fin 0"
proof -
  have "2 * ((2::int) ^ i * 2 ^ j) = 2 ^ Suc (i + j)"
    by (simp add: power_add)
  also have "\<dots> < 2 ^ 1074"
    using assms by (intro power_strict_increasing) auto
  finally have "round_ratio (2 ^ i * 2 ^ j) (2 ^ 1074) = Fin 0"
    by (intro round_ratio_underflow) (simp_all del: power_numeral)
  then show ?thesis by (simp del: power_numeral)
qed

lemma fsqrt_zero: "fsqrt (Fin 0) = Fin 0"
  by (simp add: round_sqrt_0 del: power_numeral)

lemma fsqrt_Fin: "0 \<le> a \<Longrightarrow> \<exists>r. fsqrt (Fin a) = Fin r"
  by (simp add: round_sqrt_Fin del: power_numeral)

lemma fdiv_zero: "b \<noteq> 0 \<Longrightarrow> fdiv (Fin 0) (Fin b) = Fin 0"
  by (simp add: round_ratio_zero del: power_numeral)

lemma num_zero_eq: "num_zero = Fin 0"
  by (simp add: num_zero_def num_of_int_def del: power_numeral)

lemma num_one_eq: "num_one = Fin (2 ^ 1074)"
  by (simp add: num_one_def num_of_int_def del: power_numeral)

lemma num_one_neq [simp]: "num_one \<noteq> Fin 0" "num_one \<noteq> NaN" "num_one \<noteq> num_zero"
  by (simp_all add: num_one_eq num_zero_eq del: power_numeral)

lemma num_zero_neq [simp]: "num_zero \<noteq> NaN" "num_zero \<noteq> num_one"
  by (simp_all add: num_one_eq num_zero_eq del: power_numeral)

lemma fmul_zero_one [simp]:
  "fmul num_zero num_zero = num_zero" "fmul num_zero num_one = num_zero"
  "fmul num_one num_zero = num_zero"
  by (simp_all only: num_zero_eq num_one_eq fmul_zero_left fmul_zero_right)

lemma fmul_one_one [simp]: "fmul num_one num_one = num_one"
  unfolding num_one_eq using fmul_pow2 [of 1074 1074] by (simp del: power_numeral)

lemma fadd_zero_one [simp]:
  "fadd num_zero num_zero = num_zero" "fadd num_zero num_one = num_one"
  "fadd num_one num_zero = num_one"
  unfolding num_zero_eq num_one_eq
  by (simp_all only: fadd_zero_zero) (simp_all add: fadd_zero_pow2 fadd_pow2_zero del: power_numeral fadd.simps)

lemma fsqrt_zero_one [simp]: "fsqrt num_zero = num_zero" "fsqrt num_one = num_one"
proof -
  show "fsqrt num_zero = num_zero" by (simp only: num_zero_eq fsqrt_zero)
  have "round_sqrt (2 ^ 1074 * 2 ^ 1074) = Fin (2 ^ 1074)" by (rule round_sqrt_pow2)
  then show "fsqrt num_one = num_one" by (simp add: num_one_eq del: power_numeral)
qed

lemma fdiv_zero_one [simp]: "fdiv num_zero num_one = num_zero" "fdiv num_one num_one = num_one"
proof -
  show "fdiv num_zero num_one = num_zero"
    unfolding num_zero_eq num_one_eq by (rule fdiv_zero) (simp del: power_numeral)
  have "round_ratio (2 ^ 1074 * 2 ^ 1074) (2 ^ 1074) = Fin (2 ^ 1074)"
    by (rule round_ratio_pow2) (simp_all del: power_numeral)
  then show "fdiv num_one num_one = num_one"
    by (simp add: num_one_eq del: power_numeral)
qed

lemma json_number_finite: "list_all is_finite v \<Longrightarrow> map json_number v = v"
proof (induction v)
  case Nil
  show ?case by simp
next
  case (Cons x v)
  then show ?case by (cases x) simp_all
qed

lemma is_finite_zero_one [simp]: "is_finite num_zero" "is_finite num_one"
  by (simp_all add: num_zero_eq num_one_eq del: power_numeral)

lemma json_number_zero_one [simp]: "json_number num_zero = num_zero" "json_number num_one = num_one"
  by (simp_all add: num_zero_eq num_one_eq del: power_numeral)

section \<open>The order of the scores\<close>

lemma is_pos_fsub_Fin: "is_pos (fsub (Fin b) (Fin a)) \<longleftrightarrow> a < b"
  by (simp add: fsub_def is_pos_round_ratio)

lemma is_pos_fsub_neq: "is_pos (fsub y x) \<Longrightarrow> y \<noteq> x"
  by (cases x; cases y) (auto simp: fsub_def is_pos_round_ratio)

lemma is_pos_fsub_iff:
  "x \<noteq> NaN \<Longrightarrow> y \<noteq> NaN \<Longrightarrow> is_pos (fsub y x) \<longleftrightarrow> num_le x y \<and> x \<noteq> y"
  by (cases x; cases y) (auto simp: fsub_def is_pos_round_ratio)

lemma num_le_total: "x \<noteq> NaN \<Longrightarrow> y \<noteq> NaN \<Longrightarrow> num_le x y \<or> num_le y x"
  by (cases x; cases y) auto

lemma num_le_trans: "num_le x y \<Longrightarrow> num_le y z \<Longrightarrow> num_le x z"
  by (cases x; cases y; cases z) auto

lemma num_le_refl: "x \<noteq> NaN \<Longrightarrow> num_le x x"
  by (cases x) auto

section \<open>The sort\<close>

lemma insert_by_mset: "mset (insert_by cmp x ys) = add_mset x (mset ys)"
  by (induction ys) simp_all

lemma js_sort_Cons: "js_sort cmp (x # xs) = insert_by cmp x (js_sort cmp xs)"
  by (simp add: js_sort_def)

lemma js_sort_mset: "mset (js_sort cmp xs) = mset xs"
  by (induction xs) (simp_all add: js_sort_Cons insert_by_mset, simp add: js_sort_def)

lemma set_js_sort: "set (js_sort cmp xs) = set xs"
  by (metis js_sort_mset set_mset_mset)

lemma insert_by_sorted:
  assumes "score x \<noteq> NaN" and "\<forall>y\<in>set ys. score y \<noteq> NaN"
    and "sorted_wrt (\<lambda>a b. num_le (score b) (score a)) ys"
  shows "sorted_wrt (\<lambda>a b. num_le (score b) (score a))
           (insert_by (\<lambda>a b. fsub (score b) (score a)) x ys)"
  using assms
proof (induction ys)
  case Nil
  show ?case by simp
next
  case (Cons y ys)
  have y: "score y \<noteq> NaN" using Cons.prems(2) by simp
  show ?case
  proof (cases "is_pos (fsub (score y) (score x))")
    case True
    then have xy: "num_le (score x) (score y)"
      using is_pos_fsub_iff [OF Cons.prems(1) y] by simp
    have "sorted_wrt (\<lambda>a b. num_le (score b) (score a))
            (insert_by (\<lambda>a b. fsub (score b) (score a)) x ys)"
      using Cons by simp
    moreover have "\<forall>z\<in>set (insert_by (\<lambda>a b. fsub (score b) (score a)) x ys).
                     num_le (score z) (score y)"
    proof
      fix z assume "z \<in> set (insert_by (\<lambda>a b. fsub (score b) (score a)) x ys)"
      then have "z \<in># mset (insert_by (\<lambda>a b. fsub (score b) (score a)) x ys)" by simp
      then have "z = x \<or> z \<in> set ys" by (simp add: insert_by_mset)
      then show "num_le (score z) (score y)" using xy Cons.prems(3) by auto
    qed
    ultimately show ?thesis using True by simp
  next
    case False
    then have "\<not> (num_le (score x) (score y) \<and> score x \<noteq> score y)"
      using is_pos_fsub_iff [OF Cons.prems(1) y] by simp
    then have yx: "num_le (score y) (score x)"
      using num_le_total [OF Cons.prems(1) y] num_le_refl [OF y] by auto
    have "\<forall>z\<in>set ys. num_le (score z) (score x)"
    proof
      fix z assume "z \<in> set ys"
      then have "num_le (score z) (score y)" using Cons.prems(3) by simp
      then show "num_le (score z) (score x)" using yx by (rule num_le_trans)
    qed
    then show ?thesis using False yx Cons.prems(3) by simp
  qed
qed

lemma js_sort_sorted:
  "\<forall>x\<in>set xs. score x \<noteq> NaN \<Longrightarrow>
   sorted_wrt (\<lambda>a b. num_le (score b) (score a)) (js_sort (\<lambda>a b. fsub (score b) (score a)) xs)"
proof (induction xs)
  case Nil
  show ?case by (simp add: js_sort_def)
next
  case (Cons x xs)
  show ?case
    unfolding js_sort_Cons
    using Cons by (intro insert_by_sorted) (simp_all add: set_js_sort)
qed

lemma insert_by_stable:
  "filter (\<lambda>h. score h = s) (insert_by (\<lambda>a b. fsub (score b) (score a)) x ys) =
   filter (\<lambda>h. score h = s) (x # ys)"
proof (induction ys)
  case Nil
  show ?case by simp
next
  case (Cons y ys)
  show ?case
  proof (cases "is_pos (fsub (score y) (score x))")
    case True
    then have "score y \<noteq> score x" by (rule is_pos_fsub_neq)
    with True Cons show ?thesis by auto
  next
    case False
    then show ?thesis by simp
  qed
qed

lemma js_sort_stable:
  "filter (\<lambda>h. score h = s) (js_sort (\<lambda>a b. fsub (score b) (score a)) xs) =
   filter (\<lambda>h. score h = s) xs"
proof (induction xs)
  case Nil
  show ?case by (simp add: js_sort_def)
next
  case (Cons x xs)
  then show ?case by (simp add: js_sort_Cons insert_by_stable)
qed

section \<open>Cosine similarity\<close>

lemma cosine_loop_folds:
  "length q = length v \<Longrightarrow>
   cosine_loop q v (d, a, b) =
     (foldl (\<lambda>acc p. fadd acc (fmul (fst p) (snd p))) d (zip q v),
      foldl (\<lambda>acc x. fadd acc (fmul x x)) a q,
      foldl (\<lambda>acc x. fadd acc (fmul x x)) b v)"
  by (induction q v arbitrary: d a b rule: list_induct2) simp_all

lemma cosineSimilarity_eq:
  "length q = length v \<Longrightarrow> cosineSimilarity q v = Inr (computed_score q v)"
  by (simp add: cosineSimilarity_def cosine_loop_folds computed_score_def fl_magnitude_def
      fl_dot_def fl_sumsq_def Let_def)

lemma not_negative_fmul_self: "not_negative (fmul x x)"
proof (cases x)
  case (Fin a)
  have "0 \<le> a * a" by simp
  from round_ratio_nonneg [OF _ this, of "2 ^ 1074"]
  have "round_ratio (a * a) (2 ^ 1074) = PInf \<or> (\<exists>n\<ge>0. round_ratio (a * a) (2 ^ 1074) = Fin n)"
    by (simp del: power_numeral)
  then show ?thesis using Fin by (auto simp del: power_numeral)
qed simp_all

lemma not_negative_fadd: "not_negative x \<Longrightarrow> not_negative y \<Longrightarrow> not_negative (fadd x y)"
proof (cases x; cases y)
  fix a b
  assume "not_negative x" "not_negative y" "x = Fin a" "y = Fin b"
  then have "0 \<le> a + b" by simp
  from round_ratio_nonneg [OF _ this, of 1]
  show "not_negative (fadd x y)"
    using \<open>x = Fin a\<close> \<open>y = Fin b\<close> by auto
qed simp_all

lemma not_negative_foldl:
  "not_negative a \<Longrightarrow> not_negative (foldl (\<lambda>acc x. fadd acc (fmul x x)) a v)"
  by (induction v arbitrary: a) (simp_all add: not_negative_fadd not_negative_fmul_self)

lemma not_negative_fl_sumsq: "not_negative (fl_sumsq v)"
  unfolding fl_sumsq_def by (rule not_negative_foldl) simp

lemma fl_sumsq_zeros: "list_all (\<lambda>x. x = Fin 0) v \<Longrightarrow> fl_sumsq v = Fin 0"
proof -
  have "list_all (\<lambda>x. x = Fin 0) v \<Longrightarrow> foldl (\<lambda>acc x. fadd acc (fmul x x)) (Fin 0) v = Fin 0"
    by (induction v) (simp_all add: round_ratio_zero del: power_numeral)
  then show "list_all (\<lambda>x. x = Fin 0) v \<Longrightarrow> fl_sumsq v = Fin 0"
    by (simp add: fl_sumsq_def)
qed

lemma fl_magnitude_zero_left:
  assumes "fl_sumsq q = Fin 0"
  shows "fl_magnitude q v = (if is_finite (fl_sumsq v) then Fin 0 else NaN)"
proof (cases "fl_sumsq v")
  case (Fin s)
  with not_negative_fl_sumsq [of v] have "0 \<le> s" by simp
  then obtain r where "fsqrt (Fin s) = Fin r" using fsqrt_Fin by blast
  then show ?thesis
    using assms Fin by (simp add: fl_magnitude_def fsqrt_zero fmul_zero_left del: fsqrt.simps fmul.simps)
next
  case PInf
  then show ?thesis using assms by (simp add: fl_magnitude_def fsqrt_zero del: fsqrt.simps(1))
next
  case NInf
  then show ?thesis using assms by (simp add: fl_magnitude_def fsqrt_zero del: fsqrt.simps(1))
next
  case NaN
  then show ?thesis using assms by (simp add: fl_magnitude_def fsqrt_zero del: fsqrt.simps(1))
qed

lemma fl_magnitude_zero_right:
  assumes "fl_sumsq v = Fin 0"
  shows "fl_magnitude q v = (if is_finite (fl_sumsq q) then Fin 0 else NaN)"
proof (cases "fl_sumsq q")
  case (Fin s)
  with not_negative_fl_sumsq [of q] have "0 \<le> s" by simp
  then obtain r where "fsqrt (Fin s) = Fin r" using fsqrt_Fin by blast
  then show ?thesis
    using assms Fin by (simp add: fl_magnitude_def fsqrt_zero fmul_zero_right del: fsqrt.simps fmul.simps)
next
  case PInf
  then show ?thesis using assms by (simp add: fl_magnitude_def fsqrt_zero del: fsqrt.simps(1))
next
  case NInf
  then show ?thesis using assms by (simp add: fl_magnitude_def fsqrt_zero del: fsqrt.simps(1))
next
  case NaN
  then show ?thesis using assms by (simp add: fl_magnitude_def fsqrt_zero del: fsqrt.simps(1))
qed

lemma fdiv_NaN_right: "fdiv x NaN = NaN"
  by (cases x) simp_all

lemma computed_score_zero:
  assumes "fl_sumsq q = Fin 0 \<or> fl_sumsq v = Fin 0"
  shows "computed_score q v =
           (if is_finite (fl_sumsq q) \<and> is_finite (fl_sumsq v) then Fin 0 else NaN)"
  using assms
proof
  assume z: "fl_sumsq q = Fin 0"
  show ?thesis
    unfolding computed_score_def fl_magnitude_zero_left [OF z]
    by (simp add: z fdiv_NaN_right)
next
  assume z: "fl_sumsq v = Fin 0"
  show ?thesis
    unfolding computed_score_def fl_magnitude_zero_right [OF z]
    by (simp add: z fdiv_NaN_right)
qed

lemma fl_zero_one [simp]:
  "fl_sumsq [num_one, num_zero] = num_one" "fl_sumsq [num_zero, num_one] = num_one"
  "fl_sumsq [num_zero, num_zero] = num_zero"
  "fl_dot [num_one, num_zero] [num_one, num_zero] = num_one"
  "fl_dot [num_zero, num_one] [num_zero, num_one] = num_one"
  "fl_dot [num_one, num_zero] [num_zero, num_one] = num_zero"
  "fl_dot [num_zero, num_one] [num_one, num_zero] = num_zero"
  by (simp_all add: fl_sumsq_def fl_dot_def num_zero_eq [symmetric])

lemma computed_score_zero_one [simp]:
  "computed_score [num_one, num_zero] [num_one, num_zero] = num_one"
  "computed_score [num_zero, num_one] [num_zero, num_one] = num_one"
  "computed_score [num_one, num_zero] [num_zero, num_one] = num_zero"
  "computed_score [num_zero, num_one] [num_one, num_zero] = num_zero"
  by (simp_all add: computed_score_def fl_magnitude_def)

lemma cosineSimilarity_zero_one [simp]:
  "cosineSimilarity [num_one, num_zero] [num_one, num_zero] = Inr num_one"
  "cosineSimilarity [num_zero, num_one] [num_zero, num_one] = Inr num_one"
  "cosineSimilarity [num_one, num_zero] [num_zero, num_one] = Inr num_zero"
  "cosineSimilarity [num_zero, num_one] [num_one, num_zero] = Inr num_zero"
  by (simp_all add: cosineSimilarity_eq)

lemma is_pos_fsub_zero_one [simp]:
  "\<not> is_pos (fsub num_one num_one)" "\<not> is_pos (fsub num_zero num_zero)"
  "is_pos (fsub num_one num_zero)" "\<not> is_pos (fsub num_zero num_one)"
  by (simp_all add: num_zero_eq num_one_eq is_pos_fsub_Fin del: power_numeral)

lemma fl_sumsq_overflow: "fl_sumsq [num_pow2 700, num_zero] = PInf"
proof -
  have "fmul (Fin (2 ^ 1774)) (Fin (2 ^ 1774)) = PInf"
    by (rule fmul_pow2_overflow) simp
  then show ?thesis
    by (simp add: fl_sumsq_def num_pow2_def num_zero_eq fmul_zero_left
        del: power_numeral fmul.simps)
qed

lemma fl_sumsq_underflow: "fl_sumsq [num_pow2 (- 700)] = Fin 0"
proof -
  have "fmul (Fin (2 ^ 374)) (Fin (2 ^ 374)) = Fin 0"
    by (rule fmul_pow2_underflow) simp
  then show ?thesis
    by (simp add: fl_sumsq_def num_pow2_def fadd_zero_zero del: power_numeral fmul.simps fadd.simps)
qed

lemma generateMockEmbedding_length: "length (generateMockEmbedding E text) = 384"
  by (simp add: generateMockEmbedding_def Let_def)

section \<open>The vector index\<close>

lemma js_replace_doc: "prefix ''doc:'' key \<Longrightarrow> js_replace ''doc:'' '''' key = drop 4 key"
  by (cases key) (simp_all add: numeral_eq_Suc)

lemma similarities_loop_same_dimension:
  "same_dimension db q ks \<Longrightarrow> list_all (prefix ''doc:'') ks \<Longrightarrow>
   similarities_loop db q ks acc = Inr (acc @ stored_hits db q ks)"
proof (induction ks arbitrary: acc)
  case Nil
  then show ?case by (simp add: stored_hits_def)
next
  case (Cons key ks)
  from Cons.prems obtain rec where rec: "db key = Some rec" "length (vector rec) = length q"
    by (auto simp: same_dimension_def split: option.splits)
  from Cons.prems have rest: "same_dimension db q ks" "list_all (prefix ''doc:'') ks"
    and key: "prefix ''doc:'' key"
    by (simp_all add: same_dimension_def)
  show ?case
    using rec Cons.IH [OF rest] js_replace_doc [OF key]
    by (simp add: cosineSimilarity_eq stored_hits_def stored_hit_def del: js_replace.simps)
qed

lemma similarities_loop_mismatch:
  "key \<in> set ks \<Longrightarrow> db key = Some rec \<Longrightarrow> length (vector rec) \<noteq> length q \<Longrightarrow>
   similarities_loop db q ks acc = Inl (Error ''Vectors must have same length'')"
proof (induction ks arbitrary: acc)
  case Nil
  then show ?case by simp
next
  case (Cons k ks)
  show ?case
  proof (cases "db k")
    case None
    with Cons show ?thesis by auto
  next
    case (Some r)
    show ?thesis
    proof (cases "length (vector r) = length q")
      case True
      with Some Cons show ?thesis
        by (auto simp: cosineSimilarity_eq simp del: js_replace.simps)
    next
      case False
      with Some show ?thesis by (simp add: cosineSimilarity_def)
    qed
  qed
qed

lemma queryTopK_redis [simp]: "redis (snd (queryTopK E q k w)) = redis w"
  by (simp add: queryTopK_def Let_def split: option.splits sum.splits)

lemma queryTopK_sanity [simp]: "sanity (snd (queryTopK E q k w)) = sanity w"
  by (simp add: queryTopK_def Let_def split: option.splits sum.splits)

lemma queryTopK_calls [simp]: "calls (snd (queryTopK E q k w)) = calls w @ [QueryTopK]"
  by (simp add: queryTopK_def Let_def split: option.splits sum.splits)

lemma keys_reply_ok_prefix: "keys_reply_ok ks db \<Longrightarrow> list_all (prefix ''doc:'') ks"
  by (auto simp: keys_reply_ok_def list_all_iff)

lemma queryTopK_same_dimension:
  assumes "redis_fault E = None"
    and "keys_reply_ok (client_keys E (redis w)) (redis w)"
    and "same_dimension (redis w) q (client_keys E (redis w))"
  shows "fst (queryTopK E q k w) =
         Inr (js_slice0 (js_sort (\<lambda>a b. fsub (score b) (score a))
                (stored_hits (redis w) q (client_keys E (redis w)))) k)"
proof (cases "client_keys E (redis w) = []")
  case True
  then show ?thesis
    using assms(1) by (simp add: queryTopK_def stored_hits_def js_sort_def js_slice0_def)
next
  case False
  then show ?thesis
    using assms(1)
      similarities_loop_same_dimension [OF assms(3) keys_reply_ok_prefix [OF assms(2)], of "[]"]
    by (simp add: queryTopK_def)
qed

lemma upsertVector_ok:
  "redis_fault E = None \<Longrightarrow>
   upsertVector E ident vec meta w =
     (Inr \<lparr>res_id = ident, res_key = ''doc:'' @ ident\<rparr>,
      w\<lparr>calls := calls w @ [UpsertVector ident],
        redis := (redis w)(''doc:'' @ ident \<mapsto>
                    \<lparr>vector = map json_number vec, metadata = meta, timestamp = date_now E\<rparr>)\<rparr>)"
  by (simp add: upsertVector_def Let_def)

lemma similarities_loop_Inr:
  "similarities_loop db q ks acc = Inr sims \<Longrightarrow> list_all (prefix ''doc:'') ks \<Longrightarrow>
   sims = acc @ stored_hits db q (filter (\<lambda>key. key \<in> dom db) ks)
   \<and> same_dimension db q (filter (\<lambda>key. key \<in> dom db) ks)"
proof (induction ks arbitrary: acc)
  case Nil
  then show ?case by (simp add: stored_hits_def same_dimension_def)
next
  case (Cons key ks)
  from Cons.prems(2) have key: "prefix ''doc:'' key" and rest: "list_all (prefix ''doc:'') ks"
    by simp_all
  show ?case
  proof (cases "db key")
    case None
    with Cons.prems(1) have "similarities_loop db q ks acc = Inr sims" by simp
    from Cons.IH [OF this rest] None show ?thesis by (simp add: domIff)
  next
    case (Some rec)
    show ?thesis
    proof (cases "length q = length (vector rec)")
      case False
      with Some Cons.prems(1) show ?thesis by (simp add: cosineSimilarity_def)
    next
      case True
      with Some Cons.prems(1) js_replace_doc [OF key]
      have "similarities_loop db q ks (acc @ [stored_hit q key rec]) = Inr sims"
        by (simp add: cosineSimilarity_eq stored_hit_def del: js_replace.simps)
      from Cons.IH [OF this rest] Some True show ?thesis
        by (simp add: stored_hits_def same_dimension_def domIff)
    qed
  qed
qed

lemma keys_reply_ok_dom: "keys_reply_ok ks db \<Longrightarrow> filter (\<lambda>key. key \<in> dom db) ks = ks"
  by (auto simp: keys_reply_ok_def intro: filter_True)

lemma queryTopK_Inr:
  assumes "fst (queryTopK E q k w) = Inr hits"
    and "keys_reply_ok (client_keys E (redis w)) (redis w)"
  shows "hits = js_slice0 (js_sort (\<lambda>a b. fsub (score b) (score a))
                  (stored_hits (redis w) q (client_keys E (redis w)))) k
       \<and> same_dimension (redis w) q (client_keys E (redis w))"
proof -
  from assms(1) have fault: "redis_fault E = None"
    by (auto simp: queryTopK_def Let_def split: option.splits)
  show ?thesis
  proof (cases "client_keys E (redis w) = []")
    case True
    with assms(1) fault show ?thesis
      by (simp add: queryTopK_def stored_hits_def js_sort_def js_slice0_def same_dimension_def)
  next
    case False
    with assms(1) fault obtain sims where
      loop: "similarities_loop (redis w) q (client_keys E (redis w)) [] = Inr sims"
      and hits: "hits = js_slice0 (js_sort (\<lambda>a b. fsub (score b) (score a)) sims) k"
      by (auto simp: queryTopK_def Let_def split: sum.splits)
    from similarities_loop_Inr [OF loop keys_reply_ok_prefix [OF assms(2)]]
    show ?thesis using hits by (simp add: keys_reply_ok_dom [OF assms(2)])
  qed
qed

lemma set_js_slice0: "set (js_slice0 xs k) \<subseteq> set xs"
  by (auto simp: js_slice0_def dest: in_set_takeD)

lemma length_filter_take: "length (filter P (take n xs)) \<le> length (filter P xs)"
proof -
  have "filter P xs = filter P (take n xs) @ filter P (drop n xs)"
    by (metis append_take_drop_id filter_append)
  then show ?thesis by simp
qed

lemma length_filter_js_slice0: "length (filter P (js_slice0 xs k)) \<le> length (filter P xs)"
  by (simp add: js_slice0_def length_filter_take)

lemma length_filter_js_sort:
  "length (filter P (js_sort (\<lambda>a b. fsub (score b) (score a)) xs)) = length (filter P xs)"
proof -
  have "mset (filter P (js_sort (\<lambda>a b. fsub (score b) (score a)) xs)) = mset (filter P xs)"
    by (simp add: js_sort_mset)
  then show ?thesis by (rule mset_eq_length)
qed

lemma distinct_all_equal_length: "distinct xs \<Longrightarrow> \<forall>x\<in>set xs. x = a \<Longrightarrow> length xs \<le> 1"
  by (cases xs; cases "tl xs") auto

lemma prefix_doc_drop: "prefix ''doc:'' key \<Longrightarrow> drop 4 key = ident \<Longrightarrow> key = ''doc:'' @ ident"
  by (auto simp: prefix_def)

lemma hits_for_id:
  assumes ok: "keys_reply_ok ks db"
  shows "filter (\<lambda>h. hit_id h = ident) (stored_hits db q ks) =
         stored_hits db q (filter (\<lambda>key. key = ''doc:'' @ ident) ks)"
proof -
  have "filter (\<lambda>key. drop 4 key = ident) ks = filter (\<lambda>key. key = ''doc:'' @ ident) ks"
  proof (rule filter_cong [OF refl])
    fix key assume "key \<in> set ks"
    with ok have "prefix ''doc:'' key" by (auto simp: keys_reply_ok_def)
    then show "(drop 4 key = ident) = (key = ''doc:'' @ ident)"
      by (auto dest: prefix_doc_drop)
  qed
  then show ?thesis
    by (simp add: stored_hits_def filter_map comp_def stored_hit_def)
qed

lemma hit_for_id_stored:
  assumes ok: "keys_reply_ok ks db"
    and h: "h \<in> set (stored_hits db q ks)" and idh: "hit_id h = ident"
  shows "\<exists>rec. db (''doc:'' @ ident) = Some rec \<and> h = stored_hit q (''doc:'' @ ident) rec"
proof -
  from h obtain key where key: "key \<in> set ks" and hk: "h = stored_hit q key (the (db key))"
    by (auto simp: stored_hits_def)
  from ok key have pre: "prefix ''doc:'' key" and dom: "key \<in> dom db"
    by (auto simp: keys_reply_ok_def)
  from hk idh have "drop 4 key = ident" by (simp add: stored_hit_def)
  with pre have "key = ''doc:'' @ ident" by (rule prefix_doc_drop)
  with dom hk show ?thesis by auto
qed

lemma at_most_one_hit:
  assumes ok: "keys_reply_ok ks db"
  shows "length (filter (\<lambda>h. hit_id h = ident) (stored_hits db q ks)) \<le> 1"
proof -
  have "distinct (filter (\<lambda>key. key = ''doc:'' @ ident) ks)"
    using ok by (simp add: keys_reply_ok_def)
  then have "length (filter (\<lambda>key. key = ''doc:'' @ ident) ks) \<le> 1"
    by (rule distinct_all_equal_length [where a = "''doc:'' @ ident"]) simp
  then show ?thesis
    unfolding hits_for_id [OF ok] by (simp add: stored_hits_def)
qed

section \<open>Similarity, embeddings and the vector index: the properties\<close>

text \<open>
  C8. For vectors \<open>q\<close> and \<open>v\<close> of equal length, \<^verbatim>\<open>cosineSimilarity\<close> returns the binary64
  evaluation of \<open>dot q v / (|q| |v|)\<close>: the rounded dot product over the rounded product of
  the two rounded magnitudes when that product is not zero, and exactly \<open>0\<close> when it is, so
  the division is only reached with a nonzero divisor. The sum of squares of a zero
  vector is \<open>0\<close>, and when either sum of squares is \<open>0\<close> and both are finite the result
  is exactly \<open>0\<close>.
\<close>

theorem cosineSimilarity_binary64:
  assumes "length q = length v"
  shows "cosineSimilarity q v =
           Inr (if fl_magnitude q v = Fin 0 then Fin 0
                else fdiv (fl_dot q v) (fl_magnitude q v))
       \<and> (list_all (\<lambda>x. x = Fin 0) q \<longrightarrow> fl_sumsq q = Fin 0)
       \<and> (list_all (\<lambda>x. x = Fin 0) v \<longrightarrow> fl_sumsq v = Fin 0)
       \<and> ((fl_sumsq q = Fin 0 \<or> fl_sumsq v = Fin 0)
            \<and> is_finite (fl_sumsq q) \<and> is_finite (fl_sumsq v) \<longrightarrow>
          fl_magnitude q v = Fin 0 \<and> cosineSimilarity q v = Inr (Fin 0))"
proof (intro conjI impI)
  show "cosineSimilarity q v =
           Inr (if fl_magnitude q v = Fin 0 then Fin 0
                else fdiv (fl_dot q v) (fl_magnitude q v))"
    using assms by (simp add: cosineSimilarity_eq computed_score_def)
  show "list_all (\<lambda>x. x = Fin 0) q \<Longrightarrow> fl_sumsq q = Fin 0"
    by (rule fl_sumsq_zeros)
  show "list_all (\<lambda>x. x = Fin 0) v \<Longrightarrow> fl_sumsq v = Fin 0"
    by (rule fl_sumsq_zeros)
  assume z: "(fl_sumsq q = Fin 0 \<or> fl_sumsq v = Fin 0)
             \<and> is_finite (fl_sumsq q) \<and> is_finite (fl_sumsq v)"
  from z show "fl_magnitude q v = Fin 0"
    using fl_magnitude_zero_left [of q v] fl_magnitude_zero_right [of v q] by auto
  from z have "computed_score q v = Fin 0"
    using computed_score_zero [of q v] by simp
  then show "cosineSimilarity q v = Inr (Fin 0)"
    using assms by (simp add: cosineSimilarity_eq)
qed

theorem cosineSimilarity_binary64_witness:
  "length [num_one, num_zero] = length [num_one, num_zero]
   \<and> cosineSimilarity [num_one, num_zero] [num_one, num_zero] = Inr num_one
   \<and> length [num_zero, num_zero] = length [num_one, num_zero]
   \<and> list_all (\<lambda>x. x = Fin 0) [num_zero, num_zero]
   \<and> fl_sumsq [num_zero, num_zero] = Fin 0
   \<and> is_finite (fl_sumsq [num_zero, num_zero])
   \<and> is_finite (fl_sumsq [num_one, num_zero])
   \<and> cosineSimilarity [num_zero, num_zero] [num_one, num_zero] = Inr (Fin 0)
   \<and> cosineSimilarity [num_one, num_zero] [num_zero, num_zero] = Inr (Fin 0)"
proof -
  have l: "length [num_one, num_zero] = length [num_one, num_zero]"
    and l0: "length [num_zero, num_zero] = length [num_one, num_zero]"
    and l1: "length [num_one, num_zero] = length [num_zero, num_zero]"
    by simp_all
  have z: "list_all (\<lambda>x. x = Fin 0) [num_zero, num_zero]"
    by (simp add: num_zero_eq)
  from cosineSimilarity_binary64 [OF l0] z
  have s0: "fl_sumsq [num_zero, num_zero] = Fin 0" by blast
  have f0: "is_finite (fl_sumsq [num_zero, num_zero])" by simp
  have f1: "is_finite (fl_sumsq [num_one, num_zero])" by simp
  from cosineSimilarity_binary64 [OF l]
  have a: "cosineSimilarity [num_one, num_zero] [num_one, num_zero] = Inr num_one"
    by (simp add: fl_magnitude_def)
  from cosineSimilarity_binary64 [OF l0] s0 f0 f1
  have b: "cosineSimilarity [num_zero, num_zero] [num_one, num_zero] = Inr (Fin 0)" by blast
  from cosineSimilarity_binary64 [OF l1] s0 f0 f1
  have c: "cosineSimilarity [num_one, num_zero] [num_zero, num_zero] = Inr (Fin 0)" by blast
  show ?thesis by (intro conjI l a l0 z s0 f0 f1 b c)
qed

theorem cosineSimilarity_overflow_counterexample:
  "cosineSimilarity [num_zero, num_zero] [num_pow2 700, num_zero] = Inr NaN
   \<and> num_pow2 (- 700) \<noteq> num_zero
   \<and> cosineSimilarity [num_pow2 (- 700)] [num_pow2 (- 700)] = Inr num_zero"
proof -
  have "computed_score [num_zero, num_zero] [num_pow2 700, num_zero] = NaN"
    using computed_score_zero [of "[num_zero, num_zero]" "[num_pow2 700, num_zero]"]
    by (simp add: fl_sumsq_overflow num_zero_eq [symmetric])
  then have a: "cosineSimilarity [num_zero, num_zero] [num_pow2 700, num_zero] = Inr NaN"
    by (simp add: cosineSimilarity_eq)
  have b: "num_pow2 (- 700) \<noteq> num_zero"
    by (simp add: num_pow2_def num_zero_eq del: power_numeral)
  have "computed_score [num_pow2 (- 700)] [num_pow2 (- 700)] = Fin 0"
    using computed_score_zero [of "[num_pow2 (- 700)]" "[num_pow2 (- 700)]"]
    by (simp add: fl_sumsq_underflow)
  then have c: "cosineSimilarity [num_pow2 (- 700)] [num_pow2 (- 700)] = Inr num_zero"
    by (simp add: cosineSimilarity_eq num_zero_eq)
  show ?thesis by (intro conjI a b c)
qed

text \<open>
  C3. After \<^verbatim>\<open>upsertVector(id, v1, p1)\<close> and then \<^verbatim>\<open>upsertVector(id, v2, p2)\<close> the
  keyspace is the one the second upsert alone would have left: under the key of \<open>id\<close> it
  holds the record of \<open>v2\<close> and \<open>p2\<close>, and nothing of \<open>v1\<close> and \<open>p1\<close>. Every search that
  returns has at most one hit for \<open>id\<close>, and that hit carries \<open>p2\<close> and the similarity of the
  query to \<open>v2\<close>. (The vector is held as JSON holds it: its finite components as they
  are, a NaN or an infinity as \<^verbatim>\<open>null\<close>, which reads as \<open>0\<close>.)
\<close>

theorem upsert_overwrite:
  assumes "redis_fault E1 = None" and "redis_fault E2 = None"
    and "w2 = snd (upsertVector E2 ident v2 p2 (snd (upsertVector E1 ident v1 p1 w)))"
  shows "redis w2 = redis (snd (upsertVector E2 ident v2 p2 w))
       \<and> redis w2 (''doc:'' @ ident) = Some \<lparr>vector = map json_number v2, metadata = p2, timestamp = date_now E2\<rparr>
       \<and> (\<forall>E q k hits.
             keys_reply_ok (client_keys E (redis w2)) (redis w2) \<longrightarrow>
             fst (queryTopK E q k w2) = Inr hits \<longrightarrow>
               length (filter (\<lambda>h. hit_id h = ident) hits) \<le> 1
             \<and> (\<forall>h\<in>set hits. hit_id h = ident \<longrightarrow>
                   hit_metadata h = p2 \<and> cosineSimilarity q (map json_number v2) = Inr (score h)))"
proof -
  have stored: "redis w2 (''doc:'' @ ident) = Some \<lparr>vector = map json_number v2, metadata = p2, timestamp = date_now E2\<rparr>"
    using assms by (simp add: upsertVector_ok)
  have same: "redis w2 = redis (snd (upsertVector E2 ident v2 p2 w))"
    using assms by (simp add: upsertVector_ok)
  have search: "\<forall>E q k hits.
             keys_reply_ok (client_keys E (redis w2)) (redis w2) \<longrightarrow>
             fst (queryTopK E q k w2) = Inr hits \<longrightarrow>
               length (filter (\<lambda>h. hit_id h = ident) hits) \<le> 1
             \<and> (\<forall>h\<in>set hits. hit_id h = ident \<longrightarrow>
                   hit_metadata h = p2 \<and> cosineSimilarity q (map json_number v2) = Inr (score h))"
  proof (intro allI impI conjI ballI)
    fix E q k hits
    assume ok: "keys_reply_ok (client_keys E (redis w2)) (redis w2)"
      and res: "fst (queryTopK E q k w2) = Inr hits"
    define ks where "ks = client_keys E (redis w2)"
    define all where "all = stored_hits (redis w2) q ks"
    from queryTopK_Inr [OF res ok]
    have hits: "hits = js_slice0 (js_sort (\<lambda>a b. fsub (score b) (score a)) all) k"
      and dim: "same_dimension (redis w2) q ks"
      by (simp_all add: all_def ks_def)
    have "length (filter (\<lambda>h. hit_id h = ident) hits)
          \<le> length (filter (\<lambda>h. hit_id h = ident) (js_sort (\<lambda>a b. fsub (score b) (score a)) all))"
      unfolding hits by (rule length_filter_js_slice0)
    also have "\<dots> = length (filter (\<lambda>h. hit_id h = ident) all)"
      by (rule length_filter_js_sort)
    also have "\<dots> \<le> 1"
      unfolding all_def ks_def by (rule at_most_one_hit [OF ok])
    finally show "length (filter (\<lambda>h. hit_id h = ident) hits) \<le> 1" .
    fix h
    assume hin: "h \<in> set hits" and idh: "hit_id h = ident"
    from hin have "h \<in> set (js_sort (\<lambda>a b. fsub (score b) (score a)) all)"
      unfolding hits by (rule subsetD [OF set_js_slice0])
    then have hall: "h \<in> set (stored_hits (redis w2) q (client_keys E (redis w2)))"
      by (simp only: set_js_sort all_def ks_def)
    from hit_for_id_stored [OF ok hall idh] stored
    have h: "h = stored_hit q (''doc:'' @ ident) \<lparr>vector = map json_number v2, metadata = p2, timestamp = date_now E2\<rparr>"
      by simp
    from hall obtain key where key: "key \<in> set ks" and hk: "h = stored_hit q key (the (redis w2 key))"
      by (auto simp: ks_def stored_hits_def)
    from ok key have "prefix ''doc:'' key" by (simp add: keys_reply_ok_def ks_def)
    moreover from hk idh have "drop 4 key = ident" by (simp add: stored_hit_def)
    ultimately have "key = ''doc:'' @ ident" by (rule prefix_doc_drop)
    with key dim stored have len: "length v2 = length q"
      by (auto simp: same_dimension_def list_all_iff)
    show "hit_metadata h = p2" using h by (simp add: stored_hit_def)
    show "cosineSimilarity q (map json_number v2) = Inr (score h)"
      using h len by (simp add: stored_hit_def cosineSimilarity_eq)
  qed
  show ?thesis by (rule conjI [OF same conjI [OF stored search]])
qed

theorem upsert_overwrite_witness:
  "redis_fault E0 = None \<and> redis_fault (E0\<lparr>date_now := 2\<rparr>) = None
   \<and> redis world_overwritten ''doc:a'' =
       Some \<lparr>vector = [num_zero, num_one], metadata = [''title'' \<mapsto> ''new''], timestamp = 2\<rparr>
   \<and> redis world_overwritten =
       redis (snd (upsertVector (E0\<lparr>date_now := 2\<rparr>) ''a'' [num_zero, num_one] [''title'' \<mapsto> ''new''] empty_world))
   \<and> keys_reply_ok (client_keys (E_keys [''doc:a'']) (redis world_overwritten)) (redis world_overwritten)
   \<and> fst (queryTopK (E_keys [''doc:a'']) [num_zero, num_one] 3 world_overwritten) =
       Inr [\<lparr>hit_id = ''a'', score = num_one, hit_metadata = [''title'' \<mapsto> ''new'']\<rparr>]
   \<and> cosineSimilarity [num_zero, num_one] [num_zero, num_one] = Inr num_one"
proof -
  have h1: "redis_fault E0 = None" and h2: "redis_fault (E0\<lparr>date_now := 2\<rparr>) = None"
    by (simp_all add: E0_def)
  have w: "world_overwritten =
     snd (upsertVector (E0\<lparr>date_now := 2\<rparr>) ''a'' [num_zero, num_one] [''title'' \<mapsto> ''new'']
       (snd (upsertVector E0 ''a'' [num_one, num_zero] [''title'' \<mapsto> ''old''] empty_world)))"
    by (simp only: world_overwritten_def)
  note T = upsert_overwrite [OF h1 h2 w]
  from T have same: "redis world_overwritten =
       redis (snd (upsertVector (E0\<lparr>date_now := 2\<rparr>) ''a'' [num_zero, num_one] [''title'' \<mapsto> ''new''] empty_world))"
    by (rule conjunct1)
  from T [THEN conjunct2, THEN conjunct1] have stored: "redis world_overwritten ''doc:a'' =
       Some \<lparr>vector = [num_zero, num_one], metadata = [''title'' \<mapsto> ''new''], timestamp = 2\<rparr>"
    by (simp add: E0_def)
  have db: "redis world_overwritten =
      [''doc:a'' \<mapsto> \<lparr>vector = [num_zero, num_one], metadata = [''title'' \<mapsto> ''new''], timestamp = 2\<rparr>]"
    by (simp add: world_overwritten_def upsertVector_ok h1 h2 empty_world_def)
  have ok: "keys_reply_ok (client_keys (E_keys [''doc:a'']) (redis world_overwritten))
              (redis world_overwritten)"
    unfolding db by (auto simp: keys_reply_ok_def E_keys_def)
  have res: "fst (queryTopK (E_keys [''doc:a'']) [num_zero, num_one] 3 world_overwritten) =
       Inr [\<lparr>hit_id = ''a'', score = num_one, hit_metadata = [''title'' \<mapsto> ''new'']\<rparr>]"
    by (simp add: queryTopK_def Let_def E_keys_def E0_def db js_sort_def
        js_slice0_def)
  from T ok res
  have "\<forall>h\<in>set [\<lparr>hit_id = ''a'', score = num_one, hit_metadata = [''title'' \<mapsto> ''new'']\<rparr>].
          hit_id h = ''a'' \<longrightarrow>
          hit_metadata h = [''title'' \<mapsto> ''new'']
          \<and> cosineSimilarity [num_zero, num_one] (map json_number [num_zero, num_one]) = Inr (score h)"
    by blast
  then have cos: "cosineSimilarity [num_zero, num_one] [num_zero, num_one] = Inr num_one" by simp
  show ?thesis
    by (intro conjI h1 h2 stored same ok res cos)
qed

text \<open>
  C2. When every stored vector has the length of the query, \<open>k\<close> is not
  negative and no score is NaN, \<^verbatim>\<open>queryTopK\<close> returns the first \<open>k\<close> entries of a list
  that holds the hit of every stored record, each with the score \<^verbatim>\<open>cosineSimilarity\<close>
  computes for the query and the stored vector in binary64, is sorted by descending
  score, and keeps hits of equal score in the order in which \<^verbatim>\<open>KEYS doc:*\<close> listed
  their keys. The order of insertion plays no part: the \<^verbatim>\<open>timestamp\<close> stored with a
  record is never read.
\<close>

theorem queryTopK_ranking:
  assumes "redis_fault E = None"
    and "keys_reply_ok (client_keys E (redis w)) (redis w)"
    and "same_dimension (redis w) q (client_keys E (redis w))"
    and "0 \<le> k"
    and "list_all (\<lambda>h. score h \<noteq> NaN) (stored_hits (redis w) q (client_keys E (redis w)))"
  shows "\<exists>ranked.
           fst (queryTopK E q k w) = Inr (take (nat k) ranked)
         \<and> length (take (nat k) ranked) \<le> nat k
         \<and> sorted_wrt (\<lambda>a b. num_le (score b) (score a)) ranked
         \<and> mset ranked = mset (stored_hits (redis w) q (client_keys E (redis w)))
         \<and> (\<forall>s. filter (\<lambda>h. score h = s) ranked =
                 filter (\<lambda>h. score h = s) (stored_hits (redis w) q (client_keys E (redis w))))
         \<and> (\<forall>h\<in>set ranked. \<exists>key rec.
                 key \<in> set (client_keys E (redis w)) \<and> redis w key = Some rec
               \<and> hit_id h = drop 4 key \<and> hit_metadata h = metadata rec
               \<and> cosineSimilarity q (vector rec) = Inr (score h))"
proof -
  define ranked where
    "ranked = js_sort (\<lambda>a b. fsub (score b) (score a))
                (stored_hits (redis w) q (client_keys E (redis w)))"
  have "fst (queryTopK E q k w) = Inr (take (nat k) ranked)"
    using queryTopK_same_dimension [OF assms(1,2,3), of k] assms(4)
    by (simp add: ranked_def js_slice0_def)
  moreover have "length (take (nat k) ranked) \<le> nat k" by simp
  moreover have "sorted_wrt (\<lambda>a b. num_le (score b) (score a)) ranked"
    unfolding ranked_def using assms(5) by (intro js_sort_sorted) (simp add: list_all_iff)
  moreover have "mset ranked = mset (stored_hits (redis w) q (client_keys E (redis w)))"
    unfolding ranked_def by (rule js_sort_mset)
  moreover have "\<forall>s. filter (\<lambda>h. score h = s) ranked =
                 filter (\<lambda>h. score h = s) (stored_hits (redis w) q (client_keys E (redis w)))"
    unfolding ranked_def by (simp add: js_sort_stable)
  moreover have "\<forall>h\<in>set ranked. \<exists>key rec.
                 key \<in> set (client_keys E (redis w)) \<and> redis w key = Some rec
               \<and> hit_id h = drop 4 key \<and> hit_metadata h = metadata rec
               \<and> cosineSimilarity q (vector rec) = Inr (score h)"
  proof
    fix h assume "h \<in> set ranked"
    then have "h \<in> set (stored_hits (redis w) q (client_keys E (redis w)))"
      by (simp add: ranked_def set_js_sort)
    then obtain key where key: "key \<in> set (client_keys E (redis w))"
      and h: "h = stored_hit q key (the (redis w key))"
      by (auto simp: stored_hits_def)
    from assms(3) key obtain rec where rec: "redis w key = Some rec"
      and len: "length (vector rec) = length q"
      by (auto simp: same_dimension_def list_all_iff split: option.splits)
    have "cosineSimilarity q (vector rec) = Inr (score h)"
      using h rec len by (simp add: stored_hit_def cosineSimilarity_eq)
    with key rec h show "\<exists>key rec.
                 key \<in> set (client_keys E (redis w)) \<and> redis w key = Some rec
               \<and> hit_id h = drop 4 key \<and> hit_metadata h = metadata rec
               \<and> cosineSimilarity q (vector rec) = Inr (score h)"
      by (auto simp: stored_hit_def)
  qed
  ultimately show ?thesis by blast
qed

lemma redis_world_abc:
  "redis world_abc =
     [''doc:a'' \<mapsto> \<lparr>vector = [num_one, num_zero], metadata = Map.empty, timestamp = 1\<rparr>,
      ''doc:b'' \<mapsto> \<lparr>vector = [num_one, num_zero], metadata = Map.empty, timestamp = 2\<rparr>,
      ''doc:c'' \<mapsto> \<lparr>vector = [num_one, num_zero], metadata = Map.empty, timestamp = 3\<rparr>]"
  by (simp add: world_abc_def upsertVector_def Let_def empty_world_def E0_def)

theorem queryTopK_ranking_witness:
  "redis_fault (E_keys [''doc:c'', ''doc:b'', ''doc:a'']) = None
   \<and> keys_reply_ok (client_keys (E_keys [''doc:c'', ''doc:b'', ''doc:a'']) (redis world_abc))
        (redis world_abc)
   \<and> same_dimension (redis world_abc) [num_one, num_zero]
        (client_keys (E_keys [''doc:c'', ''doc:b'', ''doc:a'']) (redis world_abc))
   \<and> (0 :: int) \<le> 2
   \<and> list_all (\<lambda>h. score h \<noteq> NaN) (stored_hits (redis world_abc) [num_one, num_zero]
        (client_keys (E_keys [''doc:c'', ''doc:b'', ''doc:a'']) (redis world_abc)))
   \<and> (\<exists>ranked.
           fst (queryTopK (E_keys [''doc:c'', ''doc:b'', ''doc:a'']) [num_one, num_zero] 2 world_abc) =
             Inr (take (nat 2) ranked)
         \<and> length (take (nat 2) ranked) \<le> nat 2
         \<and> sorted_wrt (\<lambda>a b. num_le (score b) (score a)) ranked
         \<and> mset ranked = mset (stored_hits (redis world_abc) [num_one, num_zero]
              (client_keys (E_keys [''doc:c'', ''doc:b'', ''doc:a'']) (redis world_abc)))
         \<and> (\<forall>s. filter (\<lambda>h. score h = s) ranked =
                 filter (\<lambda>h. score h = s) (stored_hits (redis world_abc) [num_one, num_zero]
                   (client_keys (E_keys [''doc:c'', ''doc:b'', ''doc:a'']) (redis world_abc))))
         \<and> (\<forall>h\<in>set ranked. \<exists>key rec.
                 key \<in> set (client_keys (E_keys [''doc:c'', ''doc:b'', ''doc:a'']) (redis world_abc))
               \<and> redis world_abc key = Some rec
               \<and> hit_id h = drop 4 key \<and> hit_metadata h = metadata rec
               \<and> cosineSimilarity [num_one, num_zero] (vector rec) = Inr (score h)))"
proof -
  have h1: "redis_fault (E_keys [''doc:c'', ''doc:b'', ''doc:a'']) = None"
    by (simp add: E_keys_def E0_def)
  have h2: "keys_reply_ok (client_keys (E_keys [''doc:c'', ''doc:b'', ''doc:a'']) (redis world_abc))
        (redis world_abc)"
    unfolding redis_world_abc by (auto simp: keys_reply_ok_def E_keys_def)
  have h3: "same_dimension (redis world_abc) [num_one, num_zero]
        (client_keys (E_keys [''doc:c'', ''doc:b'', ''doc:a'']) (redis world_abc))"
    unfolding redis_world_abc by (simp add: same_dimension_def E_keys_def)
  have h4: "(0 :: int) \<le> 2" by simp
  have h5: "list_all (\<lambda>h. score h \<noteq> NaN) (stored_hits (redis world_abc) [num_one, num_zero]
        (client_keys (E_keys [''doc:c'', ''doc:b'', ''doc:a'']) (redis world_abc)))"
    unfolding redis_world_abc by (simp add: stored_hits_def stored_hit_def E_keys_def)
  show ?thesis
    by (intro conjI h1 h2 h3 h4 h5 queryTopK_ranking [OF h1 h2 h3 h4 h5])
qed

theorem queryTopK_insertion_order_counterexample:
  "keys_reply_ok (client_keys (E_keys [''doc:c'', ''doc:b'', ''doc:a'']) (redis world_abc))
        (redis world_abc)
   \<and> map_option timestamp (redis world_abc ''doc:a'') = Some 1
   \<and> map_option timestamp (redis world_abc ''doc:b'') = Some 2
   \<and> map_option timestamp (redis world_abc ''doc:c'') = Some 3
   \<and> fst (queryTopK (E_keys [''doc:c'', ''doc:b'', ''doc:a'']) [num_one, num_zero] 3 world_abc) =
       Inr [\<lparr>hit_id = ''c'', score = num_one, hit_metadata = Map.empty\<rparr>,
            \<lparr>hit_id = ''b'', score = num_one, hit_metadata = Map.empty\<rparr>,
            \<lparr>hit_id = ''a'', score = num_one, hit_metadata = Map.empty\<rparr>]"
proof -
  have "keys_reply_ok (client_keys (E_keys [''doc:c'', ''doc:b'', ''doc:a'']) (redis world_abc))
        (redis world_abc)"
    unfolding redis_world_abc by (auto simp: keys_reply_ok_def E_keys_def)
  moreover have "fst (queryTopK (E_keys [''doc:c'', ''doc:b'', ''doc:a'']) [num_one, num_zero] 3 world_abc) =
       Inr [\<lparr>hit_id = ''c'', score = num_one, hit_metadata = Map.empty\<rparr>,
            \<lparr>hit_id = ''b'', score = num_one, hit_metadata = Map.empty\<rparr>,
            \<lparr>hit_id = ''a'', score = num_one, hit_metadata = Map.empty\<rparr>]"
    by (simp add: queryTopK_def Let_def E_keys_def E0_def redis_world_abc
        js_sort_def js_slice0_def)
  ultimately show ?thesis by (simp add: redis_world_abc)
qed

text \<open>
  C1. Only the search guards the dimension. When the index holds a record
  whose vector has another length than \<open>q\<close>, a search for \<open>q\<close> fails with the error
  \<^verbatim>\<open>Failed to query vectors: Vectors must have same length\<close> and leaves the stored records
  as they were. \<^verbatim>\<open>upsertVector\<close> makes no check: in the same state an upsert of \<open>q\<close>
  succeeds and stores the record.
\<close>

theorem dimension_guard:
  assumes "redis_fault E = None"
    and "key \<in> set (client_keys E (redis w))"
    and "redis w key = Some rec"
    and "length (vector rec) \<noteq> length q"
  shows "fst (queryTopK E q k w) =
           Inl (Error ''Failed to query vectors: Vectors must have same length'')
       \<and> redis (snd (queryTopK E q k w)) = redis w
       \<and> fst (upsertVector E ident q meta w) = Inr \<lparr>res_id = ident, res_key = ''doc:'' @ ident\<rparr>
       \<and> redis (snd (upsertVector E ident q meta w)) =
           (redis w)(''doc:'' @ ident \<mapsto> \<lparr>vector = map json_number q, metadata = meta, timestamp = date_now E\<rparr>)"
proof -
  have ne: "client_keys E (redis w) \<noteq> []" using assms(2) by auto
  have "similarities_loop (redis w) q (client_keys E (redis w)) [] =
        Inl (Error ''Vectors must have same length'')"
    using assms(2,3,4) by (rule similarities_loop_mismatch [where db = "redis w"])
  then have "fst (queryTopK E q k w) =
             Inl (Error ''Failed to query vectors: Vectors must have same length'')"
    using assms(1) ne by (simp add: queryTopK_def)
  then show ?thesis
    using assms(1) by (simp add: upsertVector_ok)
qed

lemma redis_world_a:
  "redis world_a = [''doc:a'' \<mapsto> \<lparr>vector = [num_one, num_zero], metadata = Map.empty, timestamp = 1\<rparr>]"
  by (simp add: world_a_def upsertVector_def Let_def empty_world_def E0_def)

theorem dimension_guard_witness:
  "redis_fault (E_keys [''doc:a'']) = None
   \<and> ''doc:a'' \<in> set (client_keys (E_keys [''doc:a'']) (redis world_a))
   \<and> redis world_a ''doc:a'' = Some \<lparr>vector = [num_one, num_zero], metadata = Map.empty, timestamp = 1\<rparr>
   \<and> length (vector \<lparr>vector = [num_one, num_zero], metadata = Map.empty, timestamp = 1\<rparr>) \<noteq> length [num_one]
   \<and> fst (queryTopK (E_keys [''doc:a'']) [num_one] 3 world_a) =
           Inl (Error ''Failed to query vectors: Vectors must have same length'')
   \<and> redis (snd (queryTopK (E_keys [''doc:a'']) [num_one] 3 world_a)) = redis world_a
   \<and> fst (upsertVector (E_keys [''doc:a'']) ''b'' [num_one] Map.empty world_a) =
           Inr \<lparr>res_id = ''b'', res_key = ''doc:'' @ ''b''\<rparr>
   \<and> redis (snd (upsertVector (E_keys [''doc:a'']) ''b'' [num_one] Map.empty world_a)) =
           (redis world_a)(''doc:'' @ ''b'' \<mapsto>
              \<lparr>vector = [num_one], metadata = Map.empty, timestamp = date_now (E_keys [''doc:a''])\<rparr>)"
proof -
  have h1: "redis_fault (E_keys [''doc:a'']) = None"
    by (simp add: E_keys_def E0_def)
  have h2: "''doc:a'' \<in> set (client_keys (E_keys [''doc:a'']) (redis world_a))"
    by (simp add: E_keys_def)
  have h3: "redis world_a ''doc:a'' = Some \<lparr>vector = [num_one, num_zero], metadata = Map.empty, timestamp = 1\<rparr>"
    by (simp add: redis_world_a)
  have h4: "length (vector \<lparr>vector = [num_one, num_zero], metadata = Map.empty, timestamp = 1\<rparr>) \<noteq> length [num_one]"
    by simp
  have stored: "redis (snd (upsertVector (E_keys [''doc:a'']) ''b'' [num_one] Map.empty world_a)) =
           (redis world_a)(''doc:'' @ ''b'' \<mapsto>
              \<lparr>vector = [num_one], metadata = Map.empty, timestamp = date_now (E_keys [''doc:a''])\<rparr>)"
    using dimension_guard [OF h1 h2 h3 h4, THEN conjunct2, THEN conjunct2, THEN conjunct2,
        of "''b''" Map.empty]
    by simp
  show ?thesis
    by (intro conjI h1 h2 h3 h4 stored dimension_guard [OF h1 h2 h3 h4, THEN conjunct1]
        dimension_guard [OF h1 h2 h3 h4, THEN conjunct2, THEN conjunct1]
        dimension_guard [OF h1 h2 h3 h4, THEN conjunct2, THEN conjunct2, THEN conjunct1])
qed

theorem upsert_dimension_counterexample:
  "map_option vector (redis world_a ''doc:a'') = Some [num_one, num_zero]
   \<and> redis world_a ''doc:b'' = None
   \<and> fst (upsertVector E0 ''b'' [num_one] Map.empty world_a) = Inr \<lparr>res_id = ''b'', res_key = ''doc:b''\<rparr>
   \<and> map_option vector (redis (snd (upsertVector E0 ''b'' [num_one] Map.empty world_a)) ''doc:a'') = Some [num_one, num_zero]
   \<and> map_option vector (redis (snd (upsertVector E0 ''b'' [num_one] Map.empty world_a)) ''doc:b'') = Some [num_one]"
  by (simp add: redis_world_a upsertVector_def Let_def E0_def)

section \<open>The ingest pipeline: the properties\<close>

lemma js_split_first: "\<exists>rest. js_split sep t = takeWhile (\<lambda>c. c \<noteq> sep) t # rest"
  by (induction t) auto

lemma derive_title_first_line:
  "derive_title text =
     Inr (if take 100 (first_line text) = '''' then ''Untitled'' else take 100 (first_line text))"
proof -
  obtain rest where "js_split (CHR 0x0A) text = first_line text # rest"
    unfolding first_line_def using js_split_first by blast
  then show ?thesis by (simp add: derive_title_def Let_def)
qed

lemma derive_title_nonempty: "derive_title text = Inr ttl \<Longrightarrow> ttl \<noteq> ''''"
  by (auto simp: derive_title_first_line split: if_splits)

lemma saveDocument_Inr:
  assumes "saveDocument E doc w = (Inr d, w1)"
  shows "sanity w1 = (sanity w)(doc_id d \<mapsto> d) \<and> redis w1 = redis w
       \<and> calls w1 = calls w @ [SaveDocument (in_fullText doc)]
       \<and> title d = (if in_title doc = '''' then ''Untitled Document'' else in_title doc)
       \<and> contentSnippet d = in_contentSnippet doc \<and> fullText d = in_fullText doc
       \<and> doc_source d = in_source doc"
  using assms by (auto simp: saveDocument_def Let_def split: sum.splits)

lemma createEmbedding_world:
  "snd (createEmbedding E text w) = w\<lparr>calls := calls w @ [CreateEmbedding text]\<rparr>"
  by (simp add: createEmbedding_def Let_def split: sum.splits)

lemma createEmbedding_snd:
  "createEmbedding E t w = (embedding, w') \<Longrightarrow> w' = w\<lparr>calls := calls w @ [CreateEmbedding t]\<rparr>"
  using createEmbedding_world [of E t w] by simp

lemma upsertVector_Inr:
  assumes "upsertVector E ident vec meta w = (Inr r, w')"
  shows "r = \<lparr>res_id = ident, res_key = ''doc:'' @ ident\<rparr>
       \<and> w' = w\<lparr>calls := calls w @ [UpsertVector ident],
                redis := (redis w)(''doc:'' @ ident \<mapsto>
                    \<lparr>vector = map json_number vec, metadata = meta, timestamp = date_now E\<rparr>)\<rparr>"
  using assms by (auto simp: upsertVector_def Let_def split: option.splits)

lemma ingestDocument_Inr:
  assumes "ingestDocument E text source w = (Inr r, w')"
  obtains ttl sanityDoc w1 embedding w2 redisResult where
    "derive_title text = Inr ttl"
    "saveDocument E \<lparr>in_title = ttl, in_contentSnippet = derive_snippet text, in_fullText = text,
                      in_source = source\<rparr> w = (Inr sanityDoc, w1)"
    "createEmbedding E text w1 = (embedding, w2)"
    "upsertVector E (doc_id sanityDoc) embedding
        [''title'' \<mapsto> ttl, ''source'' \<mapsto> source, ''snippet'' \<mapsto> derive_snippet text] w2
      = (Inr redisResult, w')"
    "r = \<lparr>sanityId = doc_id sanityDoc, redisId = res_id redisResult, ingest_title = ttl\<rparr>"
  using assms
  by (auto simp: ingestDocument_def Let_def split: sum.splits prod.splits)

lemma ingestDocument_fst_Inr:
  assumes "fst (ingestDocument E text source w) = Inr r"
  obtains ttl sanityDoc w1 embedding w2 redisResult where
    "derive_title text = Inr ttl"
    "saveDocument E \<lparr>in_title = ttl, in_contentSnippet = derive_snippet text, in_fullText = text,
                      in_source = source\<rparr> w = (Inr sanityDoc, w1)"
    "createEmbedding E text w1 = (embedding, w2)"
    "upsertVector E (doc_id sanityDoc) embedding
        [''title'' \<mapsto> ttl, ''source'' \<mapsto> source, ''snippet'' \<mapsto> derive_snippet text] w2
      = (Inr redisResult, snd (ingestDocument E text source w))"
    "r = \<lparr>sanityId = doc_id sanityDoc, redisId = res_id redisResult, ingest_title = ttl\<rparr>"
proof -
  have "ingestDocument E text source w = (Inr r, snd (ingestDocument E text source w))"
    using assms by (metis prod.collapse)
  then show ?thesis by (rule ingestDocument_Inr) (rule that)
qed

lemma derive_snippet_spec: "derive_snippet text = spec_snippet text"
  by (simp add: derive_snippet_def spec_snippet_def)

lemma derive_title_spec: "derive_title text = Inr (spec_title text)"
  by (simp add: derive_title_first_line spec_title_def)

lemma spec_title_nonempty: "spec_title text \<noteq> ''''"
  by (simp add: spec_title_def)

text \<open>
  C9. The title \<^verbatim>\<open>ingestDocument\<close> derives is the first line of the text cut to 100
  characters, or \<^verbatim>\<open>Untitled\<close> when that is empty; the snippet is the first 200 characters
  of the text, with the marker \<^verbatim>\<open>...\<close> appended exactly when the text is longer than 200
  characters. A successful ingest returns this title, stores title and snippet with the
  document, and stores both in the metadata of the vector.
\<close>

theorem derived_title_and_snippet:
  "derive_title text = Inr (spec_title text)
   \<and> derive_snippet text = spec_snippet text
   \<and> (\<forall>E source w r.
         fst (ingestDocument E text source w) = Inr r \<longrightarrow>
           ingest_title r = spec_title text
         \<and> (\<exists>d. sanity (snd (ingestDocument E text source w)) (sanityId r) = Some d
                \<and> title d = spec_title text \<and> contentSnippet d = spec_snippet text)
         \<and> (\<exists>rec. redis (snd (ingestDocument E text source w)) (''doc:'' @ sanityId r) = Some rec
                \<and> metadata rec ''title'' = Some (spec_title text)
                \<and> metadata rec ''snippet'' = Some (spec_snippet text)))"
proof (intro conjI allI impI)
  show "derive_title text = Inr (spec_title text)" by (rule derive_title_spec)
  show "derive_snippet text = spec_snippet text" by (rule derive_snippet_spec)
next
  fix E source w r
  assume ok: "fst (ingestDocument E text source w) = Inr r"
  from ok obtain ttl sanityDoc w1 embedding w2 redisResult where
    t: "derive_title text = Inr ttl"
    and s: "saveDocument E \<lparr>in_title = ttl, in_contentSnippet = derive_snippet text,
              in_fullText = text, in_source = source\<rparr> w = (Inr sanityDoc, w1)"
    and e: "createEmbedding E text w1 = (embedding, w2)"
    and u: "upsertVector E (doc_id sanityDoc) embedding
        [''title'' \<mapsto> ttl, ''source'' \<mapsto> source, ''snippet'' \<mapsto> derive_snippet text] w2
      = (Inr redisResult, snd (ingestDocument E text source w))"
    and r: "r = \<lparr>sanityId = doc_id sanityDoc, redisId = res_id redisResult, ingest_title = ttl\<rparr>"
    by (rule ingestDocument_fst_Inr)
  from t have ttl: "ttl = spec_title text" by (simp add: derive_title_spec)
  have w2: "w2 = w1\<lparr>calls := calls w1 @ [CreateEmbedding text]\<rparr>"
    using e by (rule createEmbedding_snd)
  note S = saveDocument_Inr [OF s]
  note U = upsertVector_Inr [OF u]
  show "ingest_title r = spec_title text" using r ttl by simp
  show "\<exists>d. sanity (snd (ingestDocument E text source w)) (sanityId r) = Some d
                \<and> title d = spec_title text \<and> contentSnippet d = spec_snippet text"
    using S U w2 r ttl spec_title_nonempty
    by (intro exI [of _ sanityDoc]) (simp add: derive_snippet_spec)
  show "\<exists>rec. redis (snd (ingestDocument E text source w)) (''doc:'' @ sanityId r) = Some rec
                \<and> metadata rec ''title'' = Some (spec_title text)
                \<and> metadata rec ''snippet'' = Some (spec_snippet text)"
    using U r ttl by (simp add: derive_snippet_spec)
qed

lemma ingest_first_result:
  "fst (ingestDocument E0 (''Hello'' @ [CHR 0x0A] @ ''World'') ''notes.txt'' empty_world) =
     Inr \<lparr>sanityId = ''d1'', redisId = ''d1'', ingest_title = ''Hello''\<rparr>"
  by (simp add: ingestDocument_def derive_title_def derive_snippet_def saveDocument_def
      createEmbedding_def upsertVector_def Let_def E0_def empty_world_def)

theorem derived_title_and_snippet_witness:
  "derive_title (''Hello'' @ [CHR 0x0A] @ ''World'') = Inr ''Hello''
   \<and> derive_title ([CHR 0x0A] @ ''World'') = Inr ''Untitled''
   \<and> derive_snippet (''Hello'' @ [CHR 0x0A] @ ''World'') = ''Hello'' @ [CHR 0x0A] @ ''World''
   \<and> derive_snippet (replicate 201 (CHR ''x'')) = replicate 200 (CHR ''x'') @ ''...''
   \<and> fst (ingestDocument E0 (''Hello'' @ [CHR 0x0A] @ ''World'') ''notes.txt'' empty_world) =
       Inr \<lparr>sanityId = ''d1'', redisId = ''d1'', ingest_title = ''Hello''\<rparr>
   \<and> (\<exists>rec. redis (snd (ingestDocument E0 (''Hello'' @ [CHR 0x0A] @ ''World'') ''notes.txt''
                           empty_world)) ''doc:d1'' = Some rec
            \<and> metadata rec ''title'' = Some ''Hello''
            \<and> metadata rec ''snippet'' = Some (''Hello'' @ [CHR 0x0A] @ ''World''))"
proof -
  note T1 = derived_title_and_snippet [of "''Hello'' @ [CHR 0x0A] @ ''World''"]
  note T2 = derived_title_and_snippet [of "[CHR 0x0A] @ ''World''"]
  note T3 = derived_title_and_snippet [of "replicate 201 (CHR ''x'')"]
  have t: "spec_title (''Hello'' @ [CHR 0x0A] @ ''World'') = ''Hello''"
    by (simp add: spec_title_def first_line_def)
  have s: "spec_snippet (''Hello'' @ [CHR 0x0A] @ ''World'') = ''Hello'' @ [CHR 0x0A] @ ''World''"
    by (simp add: spec_snippet_def)
  have a: "derive_title (''Hello'' @ [CHR 0x0A] @ ''World'') = Inr ''Hello''"
    using T1 [THEN conjunct1] t by simp
  have b: "derive_title ([CHR 0x0A] @ ''World'') = Inr ''Untitled''"
    using T2 [THEN conjunct1] by (simp add: spec_title_def first_line_def)
  have c: "derive_snippet (''Hello'' @ [CHR 0x0A] @ ''World'') = ''Hello'' @ [CHR 0x0A] @ ''World''"
    using T1 [THEN conjunct2, THEN conjunct1] s by simp
  have d: "derive_snippet (replicate 201 (CHR ''x'')) = replicate 200 (CHR ''x'') @ ''...''"
    using T3 [THEN conjunct2, THEN conjunct1] by (simp add: spec_snippet_def)
  from T1 [THEN conjunct2, THEN conjunct2] ingest_first_result
  have "\<exists>rec. redis (snd (ingestDocument E0 (''Hello'' @ [CHR 0x0A] @ ''World'') ''notes.txt''
                           empty_world)) (''doc:'' @ ''d1'') = Some rec
            \<and> metadata rec ''title'' = Some (spec_title (''Hello'' @ [CHR 0x0A] @ ''World''))
            \<and> metadata rec ''snippet'' = Some (spec_snippet (''Hello'' @ [CHR 0x0A] @ ''World''))"
    by fastforce
  then have e: "\<exists>rec. redis (snd (ingestDocument E0 (''Hello'' @ [CHR 0x0A] @ ''World'') ''notes.txt''
                           empty_world)) ''doc:d1'' = Some rec
            \<and> metadata rec ''title'' = Some ''Hello''
            \<and> metadata rec ''snippet'' = Some (''Hello'' @ [CHR 0x0A] @ ''World'')"
    unfolding t s by simp
  show ?thesis by (intro conjI a b c d ingest_first_result e)
qed

lemma index_joined_save:
  assumes "index_joined w" and "sanity w1 = (sanity w)(ident \<mapsto> d)" and "redis w1 = redis w"
  shows "index_joined w1"
  using assms unfolding index_joined_def by (metis domIff fun_upd_apply option.distinct(1))

lemma index_joined_calls:
  "index_joined (w\<lparr>calls := cs\<rparr>) = index_joined w"
  by (simp add: index_joined_def)

lemma index_joined_upsert:
  assumes "index_joined w" and "ident \<in> dom (sanity w)"
  shows "index_joined (w\<lparr>calls := cs, redis := (redis w)(''doc:'' @ ident \<mapsto> rec)\<rparr>)"
  using assms unfolding index_joined_def by auto

text \<open>
  C7. In every successful ingest the document is saved first, which yields its id; then
  the embedding is computed; then the vector is upserted under that id. The index is not
  written before the upsert, the document is in the store from the first step on, and the
  upsert adds the key of that id only: if every key of the index had its document before
  the ingest, so it has after each of the three steps.
\<close>

theorem ingest_persists_before_indexing:
  assumes "fst (ingestDocument E text source w) = Inr r" and "index_joined w"
  shows "\<exists>sanityDoc w1 embedding w2.
           saveDocument E \<lparr>in_title = ingest_title r, in_contentSnippet = derive_snippet text,
                             in_fullText = text, in_source = source\<rparr> w = (Inr sanityDoc, w1)
         \<and> createEmbedding E text w1 = (embedding, w2)
         \<and> upsertVector E (doc_id sanityDoc) embedding
              [''title'' \<mapsto> ingest_title r, ''source'' \<mapsto> source, ''snippet'' \<mapsto> derive_snippet text] w2
            = (Inr \<lparr>res_id = doc_id sanityDoc, res_key = ''doc:'' @ doc_id sanityDoc\<rparr>,
               snd (ingestDocument E text source w))
         \<and> sanityId r = doc_id sanityDoc \<and> redisId r = doc_id sanityDoc
         \<and> calls (snd (ingestDocument E text source w)) =
             calls w @ [SaveDocument text, CreateEmbedding text, UpsertVector (doc_id sanityDoc)]
         \<and> sanity w1 (doc_id sanityDoc) = Some sanityDoc
         \<and> sanity w2 = sanity w1 \<and> sanity (snd (ingestDocument E text source w)) = sanity w1
         \<and> redis w1 = redis w \<and> redis w2 = redis w
         \<and> redis (snd (ingestDocument E text source w)) =
             (redis w)(''doc:'' @ doc_id sanityDoc \<mapsto>
                \<lparr>vector = map json_number embedding,
                 metadata = [''title'' \<mapsto> ingest_title r, ''source'' \<mapsto> source,
                             ''snippet'' \<mapsto> derive_snippet text],
                 timestamp = date_now E\<rparr>)
         \<and> index_joined w1 \<and> index_joined w2
         \<and> index_joined (snd (ingestDocument E text source w))"
proof -
  from assms(1) obtain ttl sanityDoc w1 embedding w2 redisResult where
    t: "derive_title text = Inr ttl"
    and s: "saveDocument E \<lparr>in_title = ttl, in_contentSnippet = derive_snippet text,
              in_fullText = text, in_source = source\<rparr> w = (Inr sanityDoc, w1)"
    and e: "createEmbedding E text w1 = (embedding, w2)"
    and u: "upsertVector E (doc_id sanityDoc) embedding
        [''title'' \<mapsto> ttl, ''source'' \<mapsto> source, ''snippet'' \<mapsto> derive_snippet text] w2
      = (Inr redisResult, snd (ingestDocument E text source w))"
    and r: "r = \<lparr>sanityId = doc_id sanityDoc, redisId = res_id redisResult, ingest_title = ttl\<rparr>"
    by (rule ingestDocument_fst_Inr)
  have w2: "w2 = w1\<lparr>calls := calls w1 @ [CreateEmbedding text]\<rparr>"
    using e by (rule createEmbedding_snd)
  note S = saveDocument_Inr [OF s]
  note U = upsertVector_Inr [OF u]
  have j1: "index_joined w1"
    using assms(2) S [THEN conjunct1] S [THEN conjunct2, THEN conjunct1]
    by (rule index_joined_save)
  have j2: "index_joined w2"
    unfolding w2 index_joined_calls by (rule j1)
  have in_store: "doc_id sanityDoc \<in> dom (sanity w2)"
    using S w2 by simp
  have j3: "index_joined (snd (ingestDocument E text source w))"
    unfolding U [THEN conjunct2] by (rule index_joined_upsert [OF j2 in_store])
  have ttl: "ingest_title r = ttl" and sid: "sanityId r = doc_id sanityDoc"
    and rid: "redisId r = doc_id sanityDoc"
    using r U by simp_all
  have res: "redisResult = \<lparr>res_id = doc_id sanityDoc, res_key = ''doc:'' @ doc_id sanityDoc\<rparr>"
    using U by simp
  have c: "calls (snd (ingestDocument E text source w)) =
             calls w @ [SaveDocument text, CreateEmbedding text, UpsertVector (doc_id sanityDoc)]"
    using S U w2 by simp
  have d1: "sanity w1 (doc_id sanityDoc) = Some sanityDoc" using S by simp
  have d2: "sanity w2 = sanity w1" using w2 by simp
  have d3: "sanity (snd (ingestDocument E text source w)) = sanity w1" using U w2 by simp
  have r1: "redis w1 = redis w" using S by simp
  have r2: "redis w2 = redis w" using S w2 by simp
  have r3: "redis (snd (ingestDocument E text source w)) =
             (redis w)(''doc:'' @ doc_id sanityDoc \<mapsto>
                \<lparr>vector = map json_number embedding,
                 metadata = [''title'' \<mapsto> ttl, ''source'' \<mapsto> source,
                             ''snippet'' \<mapsto> derive_snippet text],
                 timestamp = date_now E\<rparr>)"
    using U r2 by simp
  show ?thesis
    unfolding ttl sid rid
    apply (rule exI [of _ sanityDoc], rule exI [of _ w1], rule exI [of _ embedding],
           rule exI [of _ w2])
    by (intro conjI s e u [unfolded res] refl c d1 d2 d3 r1 r2 r3 j1 j2 j3)
qed

lemma world_d1_stores:
  "redis world_d1 =
     [''doc:d1'' \<mapsto> \<lparr>vector = [num_one, num_zero],
                    metadata = [''title'' \<mapsto> ''first document'', ''source'' \<mapsto> ''notes.txt'',
                                ''snippet'' \<mapsto> ''first document''],
                    timestamp = 1\<rparr>]"
  "dom (sanity world_d1) = {''d1''}"
  "calls world_d1 = [SaveDocument ''first document'', CreateEmbedding ''first document'',
                     UpsertVector ''d1'']"
  by (simp_all add: world_d1_def ingestDocument_def derive_title_def derive_snippet_def
      saveDocument_def createEmbedding_def upsertVector_def Let_def E0_def empty_world_def)

lemma index_joined_world_d1: "index_joined world_d1"
  by (simp add: index_joined_def world_d1_stores)

lemma ingest_second_result:
  "fst (ingestDocument (E0\<lparr>client_create := \<lambda>d. Inr ''d2''\<rparr>) ''second document'' ''more.txt''
          world_d1) =
     Inr \<lparr>sanityId = ''d2'', redisId = ''d2'', ingest_title = ''second document''\<rparr>"
  by (simp add: ingestDocument_def derive_title_def derive_snippet_def saveDocument_def
      createEmbedding_def upsertVector_def Let_def E0_def)

theorem ingest_persists_before_indexing_witness:
  "fst (ingestDocument (E0\<lparr>client_create := \<lambda>d. Inr ''d2''\<rparr>) ''second document'' ''more.txt''
          world_d1) =
     Inr \<lparr>sanityId = ''d2'', redisId = ''d2'', ingest_title = ''second document''\<rparr>
   \<and> index_joined world_d1
   \<and> calls (snd (ingestDocument (E0\<lparr>client_create := \<lambda>d. Inr ''d2''\<rparr>) ''second document''
                    ''more.txt'' world_d1)) =
       [SaveDocument ''first document'', CreateEmbedding ''first document'', UpsertVector ''d1'',
        SaveDocument ''second document'', CreateEmbedding ''second document'', UpsertVector ''d2'']
   \<and> index_joined (snd (ingestDocument (E0\<lparr>client_create := \<lambda>d. Inr ''d2''\<rparr>)
                           ''second document'' ''more.txt'' world_d1))"
proof -
  from ingest_persists_before_indexing [OF ingest_second_result index_joined_world_d1]
  have "\<exists>sanityDoc :: sanity_doc.
      sanityId \<lparr>sanityId = ''d2'', redisId = ''d2'', ingest_title = ''second document''\<rparr>
       = doc_id sanityDoc
    \<and> calls (snd (ingestDocument (E0\<lparr>client_create := \<lambda>d. Inr ''d2''\<rparr>) ''second document''
                    ''more.txt'' world_d1)) =
       calls world_d1 @ [SaveDocument ''second document'', CreateEmbedding ''second document'',
                         UpsertVector (doc_id sanityDoc)]
    \<and> index_joined (snd (ingestDocument (E0\<lparr>client_create := \<lambda>d. Inr ''d2''\<rparr>)
                           ''second document'' ''more.txt'' world_d1))"
    by (elim exE conjE) (intro exI conjI, assumption+)
  then obtain sanityDoc :: sanity_doc where
    i: "sanityId \<lparr>sanityId = ''d2'', redisId = ''d2'', ingest_title = ''second document''\<rparr>
       = doc_id sanityDoc"
    and c: "calls (snd (ingestDocument (E0\<lparr>client_create := \<lambda>d. Inr ''d2''\<rparr>) ''second document''
                    ''more.txt'' world_d1)) =
       calls world_d1 @ [SaveDocument ''second document'', CreateEmbedding ''second document'',
                         UpsertVector (doc_id sanityDoc)]"
    and j: "index_joined (snd (ingestDocument (E0\<lparr>client_create := \<lambda>d. Inr ''d2''\<rparr>)
                           ''second document'' ''more.txt'' world_d1))"
    by blast
  from i have "doc_id sanityDoc = ''d2''" by simp
  with c have c': "calls (snd (ingestDocument (E0\<lparr>client_create := \<lambda>d. Inr ''d2''\<rparr>)
                    ''second document'' ''more.txt'' world_d1)) =
       [SaveDocument ''first document'', CreateEmbedding ''first document'', UpsertVector ''d1'',
        SaveDocument ''second document'', CreateEmbedding ''second document'', UpsertVector ''d2'']"
    by (simp add: world_d1_stores)
  show ?thesis by (intro conjI ingest_second_result index_joined_world_d1 c' j)
qed

text \<open>
  C6. The check for empty text is made by the handler of \<^verbatim>\<open>POST /api/ingest\<close>,
  not by \<^verbatim>\<open>ingestDocument\<close>. For every request whose text is empty after trimming, the
  handler answers with status 400 before \<^verbatim>\<open>ingestDocument\<close> or any collaborator is
  called, and the state of the collaborators is unchanged. The error is
  \<^verbatim>\<open>Empty content\<close>, except for a pasted text that is the empty string, where it is
  \<^verbatim>\<open>No file or text provided\<close>.
\<close>

theorem empty_text_rejected_by_handler:
  assumes "request_text E req = Some text" and "js_trim text = ''''"
  shows "post_api_ingest E req w =
           (\<lparr>status = 400,
             json = [(''error'', if req_file req = None \<and> text = ''''
                                 then ''No file or text provided'' else ''Empty content'')]\<rparr>,
            w)"
  using assms
  by (auto simp: post_api_ingest_def request_text_def ingest_checked_def
      split: option.splits if_splits sum.splits)

theorem empty_text_rejected_by_handler_witness:
  "request_text E0 \<lparr>req_file = None, req_body_text = Some ''   ''\<rparr> = Some ''   ''
   \<and> js_trim ''   '' = ''''
   \<and> post_api_ingest E0 \<lparr>req_file = None, req_body_text = Some ''   ''\<rparr> empty_world =
       (\<lparr>status = 400, json = [(''error'', ''Empty content'')]\<rparr>, empty_world)
   \<and> request_text E0
        \<lparr>req_file = Some \<lparr>originalname = ''a.txt'', mimetype = ''text/plain'', buffer = [CHR 0x0A]\<rparr>,
         req_body_text = None\<rparr> = Some [CHR 0x0A]
   \<and> js_trim [CHR 0x0A] = ''''
   \<and> post_api_ingest E0
        \<lparr>req_file = Some \<lparr>originalname = ''a.txt'', mimetype = ''text/plain'', buffer = [CHR 0x0A]\<rparr>,
         req_body_text = None\<rparr> empty_world =
       (\<lparr>status = 400, json = [(''error'', ''Empty content'')]\<rparr>, empty_world)"
proof -
  have a1: "request_text E0 \<lparr>req_file = None, req_body_text = Some ''   ''\<rparr> = Some ''   ''"
    by (simp add: request_text_def)
  have a2: "js_trim ''   '' = ''''"
    by (simp add: js_trim_def js_whitespace_def)
  have b1: "request_text E0
        \<lparr>req_file = Some \<lparr>originalname = ''a.txt'', mimetype = ''text/plain'', buffer = [CHR 0x0A]\<rparr>,
         req_body_text = None\<rparr> = Some [CHR 0x0A]"
    by (simp add: request_text_def)
  have b2: "js_trim [CHR 0x0A] = ''''"
    by (simp add: js_trim_def js_whitespace_def)
  have a3: "post_api_ingest E0 \<lparr>req_file = None, req_body_text = Some ''   ''\<rparr> empty_world =
       (\<lparr>status = 400, json = [(''error'', ''Empty content'')]\<rparr>, empty_world)"
    using empty_text_rejected_by_handler [OF a1 a2, of empty_world] by simp
  have b3: "post_api_ingest E0
        \<lparr>req_file = Some \<lparr>originalname = ''a.txt'', mimetype = ''text/plain'', buffer = [CHR 0x0A]\<rparr>,
         req_body_text = None\<rparr> empty_world =
       (\<lparr>status = 400, json = [(''error'', ''Empty content'')]\<rparr>, empty_world)"
    using empty_text_rejected_by_handler [OF b1 b2, of empty_world] by simp
  show ?thesis by (intro conjI a1 a2 a3 b1 b2 b3)
qed

theorem ingestDocument_blank_counterexample:
  "js_trim ''   '' = ''''
   \<and> fst (ingestDocument E0 ''   '' ''pasted_text'' empty_world) =
       Inr \<lparr>sanityId = ''d1'', redisId = ''d1'', ingest_title = ''   ''\<rparr>
   \<and> calls (snd (ingestDocument E0 ''   '' ''pasted_text'' empty_world)) =
       [SaveDocument ''   '', CreateEmbedding ''   '', UpsertVector ''d1'']
   \<and> map_option fullText (sanity (snd (ingestDocument E0 ''   '' ''pasted_text'' empty_world)) ''d1'')
       = Some ''   ''
   \<and> map_option vector (redis (snd (ingestDocument E0 ''   '' ''pasted_text'' empty_world)) ''doc:d1'')
       = Some [num_one, num_zero]"
  by (simp add: js_trim_def js_whitespace_def ingestDocument_def derive_title_def
      derive_snippet_def saveDocument_def createEmbedding_def upsertVector_def Let_def E0_def
      empty_world_def)

section \<open>The query pipeline: the properties\<close>

lemma getDocument_eq:
  "getDocument E ident w =
     (case client_getDocument_fault E ident of
        Some msg \<Rightarrow> Inl (Error (''Failed to fetch document: '' @ msg))
      | None \<Rightarrow> Inr (sanity w ident),
      w\<lparr>calls := calls w @ [GetDocument ident]\<rparr>)"
  by (simp add: getDocument_def Let_def split: option.splits)

lemma hit_context_calls: "hit_context E (w\<lparr>calls := cs\<rparr>) h = hit_context E w h"
  by (simp add: hit_context_def doc_unavailable_def)

lemma contexts_loop_step:
  "contexts_loop E (doc # docs) acc w =
     contexts_loop E docs (acc @ [hit_context E w doc]) (w\<lparr>calls := calls w @ [GetDocument (hit_id doc)]\<rparr>)"
  by (auto simp: getDocument_eq hit_context_def doc_unavailable_def split: option.splits)

lemma contexts_loop_eq:
  "contexts_loop E hits acc w =
     (acc @ map (hit_context E w) hits,
      w\<lparr>calls := calls w @ map (\<lambda>h. GetDocument (hit_id h)) hits\<rparr>)"
proof (induction hits arbitrary: acc w)
  case Nil
  show ?case by simp
next
  case (Cons doc docs)
  show ?case
    unfolding contexts_loop_step Cons.IH by (simp add: hit_context_calls)
qed

lemma generateAnswer_world:
  "snd (generateAnswer E prompt w) = w\<lparr>calls := calls w @ [GenerateAnswer prompt]\<rparr>"
  by (simp add: generateAnswer_def Let_def split: sum.splits)

lemma queryTopK_world: "snd (queryTopK E q k w) = w\<lparr>calls := calls w @ [QueryTopK]\<rparr>"
  by (simp add: queryTopK_def Let_def split: option.splits sum.splits)

lemma queryKnowledge_no_hits:
  assumes "fst (queryTopK E (fst (createEmbedding E question w)) topK
                 (snd (createEmbedding E question w))) = Inr []"
  shows "queryKnowledge E question topK w =
           (Inr \<lparr>answer = ''No relevant documents found. Please ingest some documents first.'',
                 contexts_out = []\<rparr>,
            w\<lparr>calls := calls w @ [CreateEmbedding question, QueryTopK]\<rparr>)"
proof -
  obtain qe w1 where e: "createEmbedding E question w = (qe, w1)" by (cases "createEmbedding E question w")
  obtain res w2 where q: "queryTopK E qe topK w1 = (res, w2)" by (cases "queryTopK E qe topK w1")
  from assms e q have res: "res = Inr []" by simp
  have w1: "w1 = w\<lparr>calls := calls w @ [CreateEmbedding question]\<rparr>"
    using createEmbedding_world [of E question w] e by simp
  have w2: "w2 = w1\<lparr>calls := calls w1 @ [QueryTopK]\<rparr>"
    using queryTopK_world [of E qe topK w1] q by simp
  show ?thesis
    unfolding queryKnowledge_def e prod.case q res by (simp add: w2 w1)
qed

lemma queryKnowledge_hits:
  assumes "fst (queryTopK E (fst (createEmbedding E question w)) topK
                 (snd (createEmbedding E question w))) = Inr hits"
    and "hits \<noteq> []"
  shows "\<exists>ans. fst (queryKnowledge E question topK w) =
           Inr \<lparr>answer = ans,
                contexts_out = map (\<lambda>h. (ctx_text (hit_context E w h), score h)) hits\<rparr>"
proof -
  obtain qe w1 where e: "createEmbedding E question w = (qe, w1)" by (cases "createEmbedding E question w")
  obtain res w2 where q: "queryTopK E qe topK w1 = (res, w2)" by (cases "queryTopK E qe topK w1")
  from assms e q have res: "res = Inr hits" by simp
  have w1: "w1 = w\<lparr>calls := calls w @ [CreateEmbedding question]\<rparr>"
    using createEmbedding_world [of E question w] e by simp
  have w2: "w2 = w1\<lparr>calls := calls w1 @ [QueryTopK]\<rparr>"
    using queryTopK_world [of E qe topK w1] q by simp
  have ctx: "hit_context E w2 = hit_context E w"
    by (rule ext) (simp add: w2 w1 hit_context_calls)
  have score: "ctx_score (hit_context E w h) = score h" for h
    by (simp add: hit_context_def context_of_metadata_def context_of_document_def)
  show ?thesis
    unfolding queryKnowledge_def e prod.case q res
    using assms(2) by (simp add: contexts_loop_eq ctx score comp_def split: prod.splits)
qed

lemma queryTopK_empty_index:
  assumes "redis_fault E = None" and "redis w = Map.empty"
    and "keys_reply_ok (client_keys E (redis w)) (redis w)"
  shows "fst (queryTopK E q k w) = Inr []"
proof -
  from assms(2,3) have "client_keys E (redis w) = []"
    by (simp add: keys_reply_ok_def)
  then show ?thesis
    using assms(1) by (simp add: queryTopK_def)
qed

text \<open>
  C5. When the search of a query returns no hit, and so for every query on an empty
  index, \<^verbatim>\<open>queryKnowledge\<close> returns the fixed answer
  \<^verbatim>\<open>No relevant documents found. Please ingest some documents first.\<close> with an empty list
  of contexts, as a result and not as an error. The only calls it has made are the
  embedding of the question and the search: no document is fetched and no answer is
  generated, and the store and the index are unchanged.
\<close>

theorem query_without_hits:
  assumes "fst (queryTopK E (fst (createEmbedding E question w)) topK
                 (snd (createEmbedding E question w))) = Inr []
           \<or> (redis_fault E = None \<and> redis w = Map.empty
               \<and> keys_reply_ok (client_keys E (redis w)) (redis w))"
  shows "fst (queryKnowledge E question topK w) =
           Inr \<lparr>answer = ''No relevant documents found. Please ingest some documents first.'',
                contexts_out = []\<rparr>
       \<and> calls (snd (queryKnowledge E question topK w)) =
           calls w @ [CreateEmbedding question, QueryTopK]
       \<and> sanity (snd (queryKnowledge E question topK w)) = sanity w
       \<and> redis (snd (queryKnowledge E question topK w)) = redis w"
proof -
  have "fst (queryTopK E (fst (createEmbedding E question w)) topK
              (snd (createEmbedding E question w))) = Inr []"
    using assms
  proof
    assume H: "redis_fault E = None \<and> redis w = Map.empty
            \<and> keys_reply_ok (client_keys E (redis w)) (redis w)"
    note f = H [THEN conjunct1] and r = H [THEN conjunct2, THEN conjunct1]
      and k = H [THEN conjunct2, THEN conjunct2]
    have same: "redis (snd (createEmbedding E question w)) = redis w"
      by (simp add: createEmbedding_world)
    show ?thesis
    proof (rule queryTopK_empty_index)
      show "redis_fault E = None" by (rule f)
      show "redis (snd (createEmbedding E question w)) = Map.empty"
        unfolding same by (rule r)
      show "keys_reply_ok (client_keys E (redis (snd (createEmbedding E question w))))
              (redis (snd (createEmbedding E question w)))"
        unfolding same by (rule k)
    qed
  qed
  then show ?thesis by (simp add: queryKnowledge_no_hits)
qed

theorem query_without_hits_witness:
  "redis_fault E0 = None \<and> redis empty_world = Map.empty
   \<and> keys_reply_ok (client_keys E0 (redis empty_world)) (redis empty_world)
   \<and> fst (queryKnowledge E0 ''What is quantum computing?'' 3 empty_world) =
           Inr \<lparr>answer = ''No relevant documents found. Please ingest some documents first.'',
                contexts_out = []\<rparr>
   \<and> calls (snd (queryKnowledge E0 ''What is quantum computing?'' 3 empty_world)) =
           [CreateEmbedding ''What is quantum computing?'', QueryTopK]"
proof -
  have h: "redis_fault E0 = None \<and> redis empty_world = Map.empty
           \<and> keys_reply_ok (client_keys E0 (redis empty_world)) (redis empty_world)"
    by (simp add: E0_def empty_world_def keys_reply_ok_def)
  have c: "calls empty_world = []" by (simp add: empty_world_def)
  note T = query_without_hits [OF disjI2 [OF h], of "''What is quantum computing?''" 3]
  show ?thesis
    by (intro conjI h [THEN conjunct1] h [THEN conjunct2, THEN conjunct1]
        h [THEN conjunct2, THEN conjunct2] T [THEN conjunct1]
        T [THEN conjunct2, THEN conjunct1, unfolded c append_Nil])
qed

text \<open>
  C4. When the search returned hits, a document that cannot be fetched never aborts the
  query: \<^verbatim>\<open>queryKnowledge\<close> returns a result with exactly one context per hit, in the order
  of the hits and with their scores. The context of a hit whose document is fetched is
  built from the document; the context of a hit whose lookup fails is built from the
  snippet and the title stored in the metadata of the hit.
\<close>

theorem query_degrades_per_hit:
  assumes "fst (queryTopK E (fst (createEmbedding E question w)) topK
                 (snd (createEmbedding E question w))) = Inr hits"
    and "hits \<noteq> []"
  shows "(\<exists>ans. fst (queryKnowledge E question topK w) =
            Inr \<lparr>answer = ans,
                 contexts_out = map (\<lambda>h. (ctx_text (hit_context E w h), score h)) hits\<rparr>)
       \<and> fst (contexts_loop E hits [] w) = map (hit_context E w) hits
       \<and> length (map (hit_context E w) hits) = length hits
       \<and> map ctx_score (map (hit_context E w) hits) = map score hits
       \<and> (\<forall>h\<in>set hits. doc_unavailable E w (hit_id h) \<longrightarrow>
             hit_context E w h =
               \<lparr>ctx_text = field_or (hit_metadata h) ''snippet'' ''Content unavailable'',
                ctx_score = score h,
                ctx_title = field_or (hit_metadata h) ''title'' ''Untitled''\<rparr>)
       \<and> (\<forall>h\<in>set hits. \<not> doc_unavailable E w (hit_id h) \<longrightarrow>
             (\<exists>d. sanity w (hit_id h) = Some d \<and> hit_context E w h = context_of_document h d))"
proof -
  have score: "ctx_score (hit_context E w h) = score h" for h
    by (simp add: hit_context_def context_of_metadata_def context_of_document_def)
  have a: "\<exists>ans. fst (queryKnowledge E question topK w) =
            Inr \<lparr>answer = ans,
                 contexts_out = map (\<lambda>h. (ctx_text (hit_context E w h), score h)) hits\<rparr>"
    using assms by (rule queryKnowledge_hits)
  have b: "fst (contexts_loop E hits [] w) = map (hit_context E w) hits"
    by (simp add: contexts_loop_eq)
  have c: "map ctx_score (map (hit_context E w) hits) = map score hits"
    by (simp add: score)
  have d: "\<forall>h\<in>set hits. doc_unavailable E w (hit_id h) \<longrightarrow>
             hit_context E w h =
               \<lparr>ctx_text = field_or (hit_metadata h) ''snippet'' ''Content unavailable'',
                ctx_score = score h,
                ctx_title = field_or (hit_metadata h) ''title'' ''Untitled''\<rparr>"
    by (simp add: hit_context_def context_of_metadata_def)
  have e: "\<forall>h\<in>set hits. \<not> doc_unavailable E w (hit_id h) \<longrightarrow>
             (\<exists>d. sanity w (hit_id h) = Some d \<and> hit_context E w h = context_of_document h d)"
    by (auto simp: hit_context_def doc_unavailable_def)
  show ?thesis by (intro conjI a b c d e) simp
qed

lemma search_world_three:
  "fst (queryTopK (E_keys [''doc:a'', ''doc:b'', ''doc:c''])
          (fst (createEmbedding (E_keys [''doc:a'', ''doc:b'', ''doc:c'']) ''a question'' world_three)) 3
          (snd (createEmbedding (E_keys [''doc:a'', ''doc:b'', ''doc:c'']) ''a question'' world_three)))
   = Inr hits_three"
  by (simp add: createEmbedding_def queryTopK_def Let_def E_keys_def E0_def world_three_def
      js_sort_def js_slice0_def hits_three_def)

theorem query_degrades_per_hit_witness:
  "fst (queryTopK (E_keys [''doc:a'', ''doc:b'', ''doc:c''])
          (fst (createEmbedding (E_keys [''doc:a'', ''doc:b'', ''doc:c'']) ''a question'' world_three)) 3
          (snd (createEmbedding (E_keys [''doc:a'', ''doc:b'', ''doc:c'']) ''a question'' world_three)))
     = Inr hits_three
   \<and> hits_three \<noteq> []
   \<and> doc_unavailable (E_keys [''doc:a'', ''doc:b'', ''doc:c'']) world_three ''b''
   \<and> (\<exists>ans. fst (queryKnowledge (E_keys [''doc:a'', ''doc:b'', ''doc:c'']) ''a question'' 3 world_three) =
            Inr \<lparr>answer = ans,
                 contexts_out = [(''text of a'', num_one), (''payload of b'', num_one), (''text of c'', num_zero)]\<rparr>)
   \<and> hit_context (E_keys [''doc:a'', ''doc:b'', ''doc:c'']) world_three
         \<lparr>hit_id = ''b'', score = num_one,
          hit_metadata = [''snippet'' \<mapsto> ''payload of b'', ''title'' \<mapsto> ''B'']\<rparr>
       = \<lparr>ctx_text = ''payload of b'', ctx_score = num_one, ctx_title = ''B''\<rparr>"
proof -
  have ne: "hits_three \<noteq> []" by (simp add: hits_three_def)
  have un: "doc_unavailable (E_keys [''doc:a'', ''doc:b'', ''doc:c'']) world_three ''b''"
    by (simp add: doc_unavailable_def world_three_def)
  note T = query_degrades_per_hit [OF search_world_three ne]
  have ctxs: "map (\<lambda>h. (ctx_text (hit_context (E_keys [''doc:a'', ''doc:b'', ''doc:c'']) world_three h),
                        score h)) hits_three
              = [(''text of a'', num_one), (''payload of b'', num_one), (''text of c'', num_zero)]"
    by (simp add: hits_three_def hit_context_def doc_unavailable_def world_three_def E_keys_def
        E0_def context_of_document_def context_of_metadata_def field_or_def stored_doc_def)
  have a: "\<exists>ans. fst (queryKnowledge (E_keys [''doc:a'', ''doc:b'', ''doc:c'']) ''a question'' 3 world_three) =
            Inr \<lparr>answer = ans,
                 contexts_out = [(''text of a'', num_one), (''payload of b'', num_one), (''text of c'', num_zero)]\<rparr>"
    using T [THEN conjunct1] unfolding ctxs .
  have "\<lparr>hit_id = ''b'', score = num_one,
          hit_metadata = [''snippet'' \<mapsto> ''payload of b'', ''title'' \<mapsto> ''B'']\<rparr> \<in> set hits_three"
    by (simp add: hits_three_def)
  with T [THEN conjunct2, THEN conjunct2, THEN conjunct2, THEN conjunct2, THEN conjunct1] un
  have b: "hit_context (E_keys [''doc:a'', ''doc:b'', ''doc:c'']) world_three
         \<lparr>hit_id = ''b'', score = num_one,
          hit_metadata = [''snippet'' \<mapsto> ''payload of b'', ''title'' \<mapsto> ''B'']\<rparr>
       = \<lparr>ctx_text = ''payload of b'', ctx_score = num_one, ctx_title = ''B''\<rparr>"
    by (simp add: field_or_def)
  show ?thesis by (intro conjI search_world_three ne un a b)
qed

end
